theory Spec2Isabelle
  imports Complex_Main "HOL-Library.Word" "HOL-Library.Log_Nat"
begin

section \<open>Typed arrays and the store\<close>

text \<open>
  The audio code of the repository (capture backends, resampler, chunk merger) works on
  \<^verbatim>\<open>Float32Array\<close> objects that are allocated, written in place and handed around by
  reference. The store below holds every \<^verbatim>\<open>Float32Array\<close> allocated so far, in allocation
  order; a reference is the position of the object in the store, so an allocation appends
  to the store and its result is a reference no earlier object has.

  A sample is modelled as a real number; NaN and the infinities are no samples of the
  model. The arithmetic of the resampler is given twice: carried out exactly, for the
  properties that do not depend on the rounding, and with the rounding of binary
  floating point, for its contract.
\<close>

type_synonym ref = nat
type_synonym heap = "real list list"

text \<open>What the source can throw, as values.\<close>

datatype exn =
    RangeError
  | TypeError
  | Thrown string
  | NaNSample

text \<open>
  \<open>RangeError\<close> and \<open>TypeError\<close> are the exceptions of the platform, \<open>Thrown\<close> is an
  exception of an external collaborator, carrying the text it renders to. \<open>NaNSample\<close> is
  no exception: reading a typed array outside its bounds yields \<^verbatim>\<open>undefined\<close>, and
  arithmetic on it yields NaN, which a real-valued sample cannot hold. A run that would
  store such a sample ends with \<open>Inl NaNSample\<close>.
\<close>

definition valid :: "heap \<Rightarrow> ref \<Rightarrow> bool" where
  "valid h r \<longleftrightarrow> r < length h"

text \<open>\<^verbatim>\<open>new Float32Array(n)\<close>: a fresh array of \<open>n\<close> zeros.\<close>

definition new_Float32Array :: "heap \<Rightarrow> nat \<Rightarrow> ref \<times> heap" where
  "new_Float32Array h n = (length h, h @ [replicate n 0])"

text \<open>\<^verbatim>\<open>new Float32Array(typedArray)\<close>: a fresh array with the contents of the argument.\<close>

definition copy_Float32Array :: "heap \<Rightarrow> ref \<Rightarrow> ref \<times> heap" where
  "copy_Float32Array h src = (length h, h @ [h ! src])"

text \<open>
  \<^verbatim>\<open>new Float32Array(input)\<close> for a block of samples owned by the platform (not an object
  of the store): a fresh array with these contents.
\<close>

definition from_samples :: "heap \<Rightarrow> real list \<Rightarrow> ref \<times> heap" where
  "from_samples h xs = (length h, h @ [xs])"

text \<open>\<^verbatim>\<open>a[i] = v\<close>: an in-place write; a write outside the array is ignored.\<close>

definition write_elem :: "heap \<Rightarrow> ref \<Rightarrow> nat \<Rightarrow> real \<Rightarrow> heap" where
  "write_elem h a i v = h[a := (h ! a)[i := v]]"

text \<open>\<^verbatim>\<open>a[i]\<close> for an integer \<open>i\<close>: \<open>None\<close> stands for \<^verbatim>\<open>undefined\<close>.\<close>

definition read_elem :: "real list \<Rightarrow> int \<Rightarrow> real option" where
  "read_elem xs i = (if 0 \<le> i \<and> i < int (length xs) then Some (xs ! nat i) else None)"

text \<open>
  \<^verbatim>\<open>target.set(source, offset)\<close>: copies \<open>source\<close> into \<open>target\<close> from position
  \<open>offset\<close> on, in place; throws a RangeError when the source does not fit.
\<close>

definition typed_set :: "heap \<Rightarrow> ref \<Rightarrow> ref \<Rightarrow> nat \<Rightarrow> exn + heap" where
  "typed_set h target source offset =
     (let t = h ! target; s = h ! source in
      if length t < offset + length s then Inl RangeError
      else Inr (h[target := take offset t @ s @ drop (offset + length s) t]))"

section \<open>Chunk merger\<close>

text \<open>
  \<^verbatim>\<open>
  function mergeChunks(chunks: Float32Array[]): Float32Array {
    const totalLength = chunks.reduce((sum, c) => sum + c.length, 0);
    const merged = new Float32Array(totalLength);
    let offset = 0;
    for (const chunk of chunks) {
      merged.set(chunk, offset);
      offset += chunk.length;
    }
    return merged;
  }
  \<close>
\<close>

definition totalLength :: "heap \<Rightarrow> ref list \<Rightarrow> nat" where
  "totalLength h chunks = foldl (\<lambda>sum c. sum + length (h ! c)) 0 chunks"

fun merge_loop :: "heap \<Rightarrow> ref \<Rightarrow> ref list \<Rightarrow> nat \<Rightarrow> exn + heap" where
  "merge_loop h merged [] offset = Inr h"
| "merge_loop h merged (chunk # rest) offset =
     (case typed_set h merged chunk offset of
        Inl e \<Rightarrow> Inl e
      | Inr h' \<Rightarrow> merge_loop h' merged rest (offset + length (h' ! chunk)))"

definition mergeChunks :: "heap \<Rightarrow> ref list \<Rightarrow> exn + (ref \<times> heap)" where
  "mergeChunks h chunks =
     (case new_Float32Array h (totalLength h chunks) of
        (merged, h1) \<Rightarrow>
          (case merge_loop h1 merged chunks 0 of
             Inl e \<Rightarrow> Inl e
           | Inr h2 \<Rightarrow> Inr (merged, h2)))"

text \<open>The start offset of chunk \<open>k\<close> in the merged buffer: the lengths before it, added up.\<close>

definition chunk_offset :: "heap \<Rightarrow> ref list \<Rightarrow> nat \<Rightarrow> nat" where
  "chunk_offset h chunks k = sum_list (map (\<lambda>c. length (h ! c)) (take k chunks))"

section \<open>PCM conversion\<close>

text \<open>
  A \<^verbatim>\<open>Uint8Array\<close> is a view of an \<^verbatim>\<open>ArrayBuffer\<close>: the bytes of the buffer, the offset
  of the view in it and the number of bytes of the view. PCM frames are only read, so they
  are values, not objects of the store.
\<close>

record uint8array =
  buffer :: "8 word list"
  byteOffset :: nat
  u8_length :: nat

text \<open>
  Element \<open>i\<close> of an \<^verbatim>\<open>Int16Array\<close> view: two bytes, the low byte first (typed arrays
  use the byte order of the platform, which is little-endian on the platforms the
  application runs on).
\<close>

definition int16_at :: "8 word list \<Rightarrow> nat \<Rightarrow> 16 word" where
  "int16_at bs p = word_cat (bs ! (p + 1)) (bs ! p)"

text \<open>
  \<^verbatim>\<open>new Int16Array(buffer, byteOffset, length)\<close>: throws a RangeError when the offset is
  not a multiple of the element size, or when the view does not fit the buffer.
\<close>

definition new_Int16Array :: "8 word list \<Rightarrow> nat \<Rightarrow> nat \<Rightarrow> exn + 16 word list" where
  "new_Int16Array buf offset n =
     (if offset mod 2 \<noteq> 0 then Inl RangeError
      else if length buf < offset + 2 * n then Inl RangeError
      else Inr (map (\<lambda>i. int16_at buf (offset + 2 * i)) [0..<n]))"

text \<open>\<^verbatim>\<open>int16[i] / 32768\<close>: the signed value of the element, divided.\<close>

definition int16_to_float :: "16 word \<Rightarrow> real" where
  "int16_to_float w = real_of_int (sint w) / 32768"

text \<open>
  \<^verbatim>\<open>
  function pcmS16LEtoFloat32(uint8: Uint8Array): Float32Array {
    const int16 = new Int16Array(uint8.buffer, uint8.byteOffset, uint8.length / 2);
    const float32 = new Float32Array(int16.length);
    for (let i = 0; i < int16.length; i++) float32[i] = int16[i] / 32768;
    return float32;
  }
  \<close>
  The length argument \<^verbatim>\<open>uint8.length / 2\<close> is converted to an integer by truncation, so
  an odd trailing byte is left out.
\<close>

function pcm_loop :: "heap \<Rightarrow> ref \<Rightarrow> 16 word list \<Rightarrow> nat \<Rightarrow> heap" where
  "pcm_loop h float32 int16 i =
     (if i < length int16
      then pcm_loop (write_elem h float32 i (int16_to_float (int16 ! i))) float32 int16 (Suc i)
      else h)"
  by pat_completeness auto
termination
  by (relation "measure (\<lambda>(h, float32, int16, i). length int16 - i)") auto

declare pcm_loop.simps [simp del]

definition pcmS16LEtoFloat32 :: "heap \<Rightarrow> uint8array \<Rightarrow> exn + (ref \<times> heap)" where
  "pcmS16LEtoFloat32 h uint8 =
     (case new_Int16Array (buffer uint8) (byteOffset uint8) (u8_length uint8 div 2) of
        Inl e \<Rightarrow> Inl e
      | Inr int16 \<Rightarrow>
          (case new_Float32Array h (length int16) of
             (float32, h1) \<Rightarrow> Inr (float32, pcm_loop h1 float32 int16 0)))"


section \<open>Signal resampler\<close>

text \<open>
  \<^verbatim>\<open>
  private resample(raw: Float32Array): Float32Array {
    if (this.nativeSampleRate === 16000) return new Float32Array(raw);
    const ratio = 16000 / this.nativeSampleRate;
    const outLen = Math.round(raw.length * ratio);
    const out = new Float32Array(outLen);
    for (let i = 0; i < outLen; i++) {
      const srcIdx = i / ratio;
      const lo = Math.floor(srcIdx);
      const hi = Math.min(lo + 1, raw.length - 1);
      const frac = srcIdx - lo;
      out[i] = raw[lo] * (1 - frac) + raw[hi] * frac;
    }
    return out;
  }
  \<close>
\<close>

text \<open>\<^verbatim>\<open>Math.round\<close>: the nearest integer, a tie going up.\<close>

definition js_round :: "real \<Rightarrow> int" where
  "js_round x = \<lfloor>x + 1/2\<rfloor>"

text \<open>The body of the loop: the value stored at \<open>out[i]\<close>, \<open>None\<close> when it would be NaN.\<close>

definition resample_sample :: "real list \<Rightarrow> real \<Rightarrow> nat \<Rightarrow> real option" where
  "resample_sample raw ratio i =
     (let srcIdx = real i / ratio;
          lo = \<lfloor>srcIdx\<rfloor>;
          hi = min (lo + 1) (int (length raw) - 1);
          frac = srcIdx - of_int lo
      in case read_elem raw lo of
           None \<Rightarrow> None
         | Some a \<Rightarrow>
             (case read_elem raw hi of
                None \<Rightarrow> None
              | Some b \<Rightarrow> Some (a * (1 - frac) + b * frac)))"

function resample_loop :: "heap \<Rightarrow> ref \<Rightarrow> ref \<Rightarrow> real \<Rightarrow> nat \<Rightarrow> nat \<Rightarrow> exn + heap" where
  "resample_loop h out raw ratio outLen i =
     (if i < outLen
      then (case resample_sample (h ! raw) ratio i of
              None \<Rightarrow> Inl NaNSample
            | Some v \<Rightarrow> resample_loop (write_elem h out i v) out raw ratio outLen (Suc i))
      else Inr h)"
  by pat_completeness auto
termination
  by (relation "measure (\<lambda>(h, out, raw, ratio, outLen, i). outLen - i)") auto

declare resample_loop.simps [simp del]

text \<open>
  The rate is a number of the platform (\<^verbatim>\<open>AudioContext.sampleRate\<close>). Division by zero
  is written out, since it is 0 in HOL and an infinity in the source: with a rate of 0 the
  ratio is infinite, the length is NaN for an empty input (an empty array is allocated)
  and infinite otherwise (the allocation throws). A negative length throws as well.
\<close>

definition resample :: "real \<Rightarrow> heap \<Rightarrow> ref \<Rightarrow> exn + (ref \<times> heap)" where
  "resample nativeSampleRate h raw =
     (if nativeSampleRate = 16000 then Inr (copy_Float32Array h raw)
      else if nativeSampleRate = 0
      then (if h ! raw = [] then Inr (new_Float32Array h 0) else Inl RangeError)
      else
        (let ratio = 16000 / nativeSampleRate;
             outLen = js_round (real (length (h ! raw)) * ratio)
         in if outLen < 0 then Inl RangeError
            else
              (case new_Float32Array h (nat outLen) of
                 (out, h1) \<Rightarrow>
                   (case resample_loop h1 out raw ratio (nat outLen) 0 of
                      Inl e \<Rightarrow> Inl e
                    | Inr h2 \<Rightarrow> Inr (out, h2)))))"

text \<open>
  The contract in the words of the specification, to compare with: the value of the
  linear interpolation of \<open>raw\<close> at the fractional source position \<open>pos\<close>, the upper
  index clamped to the last valid one.
\<close>

definition lerp_at :: "real list \<Rightarrow> real \<Rightarrow> real" where
  "lerp_at raw pos =
     raw ! nat \<lfloor>pos\<rfloor> * (1 - (pos - of_int \<lfloor>pos\<rfloor>)) +
     raw ! nat (min (\<lfloor>pos\<rfloor> + 1) (int (length raw) - 1)) * (pos - of_int \<lfloor>pos\<rfloor>)"

section \<open>Capture backend: event frames from the glasses\<close>

text \<open>
  Modelled from the spec: the device bridge (\<^verbatim>\<open>EvenAppBridge\<close> of the vendor's SDK) is an
  external collaborator, "an event source/sink with the shape onEvent(cb),
  audioControl(bool)". The model keeps what the capture backend can observe of it: the
  last audio on/off signal, and the listeners that the backend has registered and not
  yet unsubscribed. Its calls are assumed not to throw.
\<close>

record bridge =
  audio_on :: bool
  listeners :: "nat list"
  next_listener :: nat

text \<open>\<^verbatim>\<open>bridge.onEvenHubEvent(cb)\<close> registers a listener and returns its unsubscribe handle.\<close>

definition onEvenHubEvent :: "bridge \<Rightarrow> nat \<times> bridge" where
  "onEvenHubEvent b =
     (next_listener b,
      b\<lparr>listeners := listeners b @ [next_listener b], next_listener := Suc (next_listener b)\<rparr>)"

definition call_unsubscribe :: "nat \<Rightarrow> bridge \<Rightarrow> bridge" where
  "call_unsubscribe k b = b\<lparr>listeners := removeAll k (listeners b)\<rparr>"

definition audioControl :: "bool \<Rightarrow> bridge \<Rightarrow> bridge" where
  "audioControl on b = b\<lparr>audio_on := on\<rparr>"

text \<open>An event of the bridge carries an audio frame (\<^verbatim>\<open>event.audioEvent\<close>) or not.\<close>

datatype event = AudioEvent uint8array | OtherEvent

text \<open>
  \<^verbatim>\<open>
  export class GlassesAudioCapture implements AudioCapture {
    private chunks: Float32Array[] = [];
    private recording = false;
    private unsubscribe: (() => void) | null = null;
    constructor(private bridge: EvenAppBridge) {}
  \<close>
\<close>

record glasses =
  g_chunks :: "ref list"
  g_recording :: bool
  g_unsubscribe :: "nat option"
  g_bridge :: bridge

definition GlassesAudioCapture :: "bridge \<Rightarrow> glasses" where
  "GlassesAudioCapture b =
     \<lparr>g_chunks = [], g_recording = False, g_unsubscribe = None, g_bridge = b\<rparr>"

text \<open>
  \<^verbatim>\<open>
  start() {
    this.chunks = [];
    this.recording = true;
    this.unsubscribe = this.bridge.onEvenHubEvent((event) => { ... });
    this.bridge.audioControl(true);
  }
  \<close>
\<close>

definition g_start :: "glasses \<Rightarrow> glasses" where
  "g_start s =
     (case onEvenHubEvent (g_bridge s) of
        (k, b) \<Rightarrow>
          s\<lparr>g_chunks := [], g_recording := True, g_unsubscribe := Some k,
            g_bridge := audioControl True b\<rparr>)"

text \<open>
  The listener that \<open>start\<close> registers:
  \<^verbatim>\<open>
  if (this.recording && event.audioEvent) {
    this.chunks.push(pcmS16LEtoFloat32(event.audioEvent.audioPcm));
  }
  \<close>
  An exception of the conversion leaves the listener before the push.
\<close>

definition g_listener :: "heap \<Rightarrow> glasses \<Rightarrow> event \<Rightarrow> exn + (heap \<times> glasses)" where
  "g_listener h s ev =
     (if g_recording s
      then (case ev of
              AudioEvent audioPcm \<Rightarrow>
                (case pcmS16LEtoFloat32 h audioPcm of
                   Inl e \<Rightarrow> Inl e
                 | Inr (float32, h') \<Rightarrow> Inr (h', s\<lparr>g_chunks := g_chunks s @ [float32]\<rparr>))
            | OtherEvent \<Rightarrow> Inr (h, s))
      else Inr (h, s))"

text \<open>
  The bridge delivers an event to every listener registered at that moment, one after the
  other (each \<open>start\<close> without a \<open>stop\<close> in between leaves one more listener of this
  backend registered). A listener that throws ends the delivery; the state is as the
  listeners before it left it.
\<close>

fun g_deliver :: "heap \<Rightarrow> glasses \<Rightarrow> event \<Rightarrow> nat list \<Rightarrow> heap \<times> glasses" where
  "g_deliver h s ev [] = (h, s)"
| "g_deliver h s ev (k # ks) =
     (case g_listener h s ev of
        Inl e \<Rightarrow> (h, s)
      | Inr (h', s') \<Rightarrow> g_deliver h' s' ev ks)"

text \<open>
  \<^verbatim>\<open>
  async getAudio(): Promise<Float32Array> {
    return mergeChunks(this.chunks);
  }
  \<close>
  The functions of the capture interface return what the promise settles to (the buffer,
  or the exception it is rejected with), the store and the state of the backend.
\<close>

definition g_getAudio :: "heap \<Rightarrow> glasses \<Rightarrow> (exn + ref) \<times> heap \<times> glasses" where
  "g_getAudio h s =
     (case mergeChunks h (g_chunks s) of
        Inl e \<Rightarrow> (Inl e, h, s)
      | Inr (merged, h') \<Rightarrow> (Inr merged, h', s))"

text \<open>
  \<^verbatim>\<open>
  async stop(): Promise<Float32Array> {
    this.recording = false;
    this.bridge.audioControl(false);
    this.unsubscribe?.();
    this.unsubscribe = null;
    return mergeChunks(this.chunks);
  }
  \<close>
\<close>

definition g_stop :: "heap \<Rightarrow> glasses \<Rightarrow> (exn + ref) \<times> heap \<times> glasses" where
  "g_stop h s =
     (let s1 = s\<lparr>g_recording := False\<rparr>;
          s2 = s1\<lparr>g_bridge := audioControl False (g_bridge s1)\<rparr>;
          s3 = (case g_unsubscribe s2 of
                  None \<Rightarrow> s2
                | Some k \<Rightarrow> s2\<lparr>g_bridge := call_unsubscribe k (g_bridge s2)\<rparr>);
          s4 = s3\<lparr>g_unsubscribe := None\<rparr>
      in case mergeChunks h (g_chunks s4) of
           Inl e \<Rightarrow> (Inl e, h, s4)
         | Inr (merged, h') \<Rightarrow> (Inr merged, h', s4))"

text \<open>
  What can happen to a backend, in any order: the calls of the capture interface, and
  events of the bridge. A run starts from a freshly constructed backend.
\<close>

datatype g_action = GStart | GEvent event | GGetAudio | GStop

fun g_step :: "heap \<times> glasses \<Rightarrow> g_action \<Rightarrow> heap \<times> glasses" where
  "g_step (h, s) GStart = (h, g_start s)"
| "g_step (h, s) (GEvent ev) = g_deliver h s ev (listeners (g_bridge s))"
| "g_step (h, s) GGetAudio = snd (g_getAudio h s)"
| "g_step (h, s) GStop = snd (g_stop h s)"

definition g_run :: "heap \<Rightarrow> bridge \<Rightarrow> g_action list \<Rightarrow> heap \<times> glasses" where
  "g_run h b acts = foldl g_step (h, GlassesAudioCapture b) acts"

section \<open>Capture backend: live stream of the browser\<close>

text \<open>
  \<^verbatim>\<open>
  export class BrowserAudioCapture implements AudioCapture {
    private stream: MediaStream | null = null;
    private audioCtx: AudioContext | null = null;
    private sourceNode: MediaStreamAudioSourceNode | null = null;
    private processorNode: ScriptProcessorNode | null = null;
    private chunks: Float32Array[] = [];
    private nativeSampleRate = 48000;
  \<close>
  The objects of the platform are kept as far as the backend tells them apart: each is
  there or \<^verbatim>\<open>null\<close>.
\<close>

record browser =
  b_stream :: bool
  b_audioCtx :: bool
  b_sourceNode :: bool
  b_processorNode :: bool
  b_chunks :: "ref list"
  nativeSampleRate :: real


text \<open>
  \<^verbatim>\<open>
  start() {
    this.chunks = [];
    this.audioCtx = new AudioContext();
    this.nativeSampleRate = this.audioCtx.sampleRate;
    this.sourceNode = this.audioCtx.createMediaStreamSource(this.stream!);
    this.processorNode = this.audioCtx.createScriptProcessor(4096, 1, 1);
    this.processorNode.onaudioprocess = (e) => { ... };
    this.sourceNode.connect(this.processorNode);
    this.processorNode.connect(this.audioCtx.destination);
  }
  \<close>
  \<open>sampleRate\<close> is the rate of the context the platform opens. Without a stream,
  \<^verbatim>\<open>createMediaStreamSource\<close> throws a TypeError.
\<close>

definition b_start :: "real \<Rightarrow> browser \<Rightarrow> exn option \<times> browser" where
  "b_start sampleRate s =
     (let s1 = s\<lparr>b_chunks := [], b_audioCtx := True, nativeSampleRate := sampleRate\<rparr>
      in if b_stream s1
         then (None, s1\<lparr>b_sourceNode := True, b_processorNode := True\<rparr>)
         else (Some TypeError, s1))"

text \<open>
  The callback that \<open>start\<close> installs, for a block \<open>input\<close> of samples that the
  platform delivers:
  \<^verbatim>\<open>
  const input = e.inputBuffer.getChannelData(0);
  this.chunks.push(new Float32Array(input));
  \<close>
\<close>

definition b_onaudioprocess :: "heap \<Rightarrow> browser \<Rightarrow> real list \<Rightarrow> heap \<times> browser" where
  "b_onaudioprocess h s input =
     (case from_samples h input of
        (copy, h') \<Rightarrow> (h', s\<lparr>b_chunks := b_chunks s @ [copy]\<rparr>))"

text \<open>\<^verbatim>\<open>this.resample(mergeChunks(this.chunks))\<close>\<close>

definition b_resample_merged :: "heap \<Rightarrow> browser \<Rightarrow> exn + (ref \<times> heap)" where
  "b_resample_merged h s =
     (case mergeChunks h (b_chunks s) of
        Inl e \<Rightarrow> Inl e
      | Inr (merged, h1) \<Rightarrow> resample (nativeSampleRate s) h1 merged)"

text \<open>
  \<^verbatim>\<open>
  async getAudio(): Promise<Float32Array> {
    return this.resample(mergeChunks(this.chunks));
  }
  \<close>
\<close>

definition b_getAudio :: "heap \<Rightarrow> browser \<Rightarrow> (exn + ref) \<times> heap \<times> browser" where
  "b_getAudio h s =
     (case b_resample_merged h s of
        Inl e \<Rightarrow> (Inl e, h, s)
      | Inr (audio, h') \<Rightarrow> (Inr audio, h', s))"

text \<open>
  \<^verbatim>\<open>
  async stop(): Promise<Float32Array> {
    this.processorNode?.disconnect();
    this.sourceNode?.disconnect();
    this.processorNode = null;
    this.sourceNode = null;
    const audio = this.resample(mergeChunks(this.chunks));
    this.audioCtx?.close();
    this.audioCtx = null;
    return audio;
  }
  \<close>
\<close>

definition b_stop :: "heap \<Rightarrow> browser \<Rightarrow> (exn + ref) \<times> heap \<times> browser" where
  "b_stop h s =
     (let s1 = s\<lparr>b_processorNode := False, b_sourceNode := False\<rparr>
      in case b_resample_merged h s1 of
           Inl e \<Rightarrow> (Inl e, h, s1)
         | Inr (audio, h') \<Rightarrow> (Inr audio, h', s1\<lparr>b_audioCtx := False\<rparr>))"

text \<open>The condition on a buffer that the specification's data model states.\<close>

definition in_range :: "real list \<Rightarrow> bool" where
  "in_range xs \<longleftrightarrow> list_all (\<lambda>x. -1 \<le> x \<and> x \<le> 1) xs"

text \<open>The chunks of a session are buffers of the store, each within that range.\<close>

definition chunks_ok :: "heap \<Rightarrow> ref list \<Rightarrow> bool" where
  "chunks_ok h chunks \<longleftrightarrow> list_all (\<lambda>c. valid h c \<and> in_range (h ! c)) chunks"

section \<open>Recognition worker\<close>

text \<open>
  \<^verbatim>\<open>
  export type WorkerRequest =
    | { type: "load" }
    | { type: "transcribe"; audio: Float32Array };
  export type WorkerResponse =
    | { type: "progress"; status: string; file?: string; progress?: number }
    | { type: "ready"; device: string }
    | { type: "result"; text: string }
    | { type: "error"; error: string };
  \<close>
  The audio of a request crosses the boundary of the worker by transfer, so it is a value
  here: the samples.
\<close>

datatype WorkerRequest = Load | Transcribe "real list"

datatype WorkerResponse =
    Progress string "string option" "real option"
  | Ready string
  | Result string
  | Error string

text \<open>
  Modelled from the spec: the recognition model is an external collaborator, "an opaque
  function audio-in/text-out". A call of it returns one result object or a sequence of
  candidates, each with a text, or throws.
\<close>

datatype asr_output = Single string | Candidates "string list"

type_synonym pipeline = "real list \<Rightarrow> exn + asr_output"

text \<open>
  The state of the worker: \<^verbatim>\<open>let transcriber: ... | null = null\<close>. The second field is
  not in the source: it records the audio of every call of the model, so that "the model
  was not invoked" can be stated.
\<close>

record worker =
  transcriber :: "pipeline option"
  invocations :: "real list list"

definition worker_init :: worker where
  "worker_init = \<lparr>transcriber = None, invocations = []\<rparr>"

text \<open>
  What the platform and the model source do during one \<open>load\<close>: the outcome of the
  probe for WebGPU, the progress callbacks of the model source, and whether it delivers a
  model.
\<close>

datatype gpu_probe = NoGpu | AdapterThrows | NoAdapter | Adapter

record progress_info =
  p_status :: "string option"
  p_file :: "string option"
  p_progress :: "real option"

record load_env =
  gpu :: gpu_probe
  callbacks :: "progress_info list"
  outcome :: "exn + pipeline"

text \<open>
  \<^verbatim>\<open>
  async function detectDevice(): Promise<"webgpu" | "wasm"> {
    if ("gpu" in navigator) {
      try {
        const adapter = await (navigator as any).gpu.requestAdapter();
        if (adapter) return "webgpu";
      } catch { }
    }
    return "wasm";
  }
  \<close>
\<close>

fun detectDevice :: "gpu_probe \<Rightarrow> string" where
  "detectDevice Adapter = ''webgpu''"
| "detectDevice _ = ''wasm''"

text \<open>The response that the progress callback posts for one payload of the model source.\<close>

definition progress_response :: "progress_info \<Rightarrow> WorkerResponse" where
  "progress_response p =
     Progress (case p_status p of None \<Rightarrow> [] | Some st \<Rightarrow> st) (p_file p) (p_progress p)"

text \<open>
  \<open>loadModel\<close>: the responses posted, the exception thrown if any, and the state. The
  responses posted before an exception stay posted.
\<close>

definition loadModel :: "worker \<Rightarrow> load_env \<Rightarrow> WorkerResponse list \<times> exn option \<times> worker" where
  "loadModel w env =
     (let device = detectDevice (gpu env);
          posted = Progress ''initiate'' (Some (''device: '' @ device)) None
                     # map progress_response (callbacks env)
      in case outcome env of
           Inl e \<Rightarrow> (posted, Some e, w)
         | Inr m \<Rightarrow> (posted @ [Ready device], None, w\<lparr>transcriber := Some m\<rparr>))"

text \<open>
  \<^verbatim>\<open>String.prototype.trim\<close>, for the white space and line terminators among the
  8-bit characters.
\<close>

definition is_space :: "char \<Rightarrow> bool" where
  "is_space c \<longleftrightarrow> of_char c \<in> {9, 10, 11, 12, 13, 32, 160 :: nat}"

definition trim :: "string \<Rightarrow> string" where
  "trim t = rev (dropWhile is_space (rev (dropWhile is_space t)))"

text \<open>
  \<^verbatim>\<open>Array.isArray(result) ? result[0].text : result.text\<close>: reading the text of the
  first candidate of an empty sequence throws a TypeError.
\<close>

fun result_text :: "asr_output \<Rightarrow> exn + string" where
  "result_text (Single t) = Inr t"
| "result_text (Candidates []) = Inl TypeError"
| "result_text (Candidates (t # ts)) = Inr t"

text \<open>
  \<^verbatim>\<open>
  async function transcribe(audio: Float32Array) {
    if (!transcriber) {
      self.postMessage({ type: "error", error: "Model not loaded" });
      return;
    }
    const result = await transcriber(audio);
    const text = Array.isArray(result) ? result[0].text : result.text;
    self.postMessage({ type: "result", text: text.trim() });
  }
  \<close>
\<close>

definition transcribe :: "worker \<Rightarrow> real list \<Rightarrow> WorkerResponse list \<times> exn option \<times> worker" where
  "transcribe w audio =
     (case transcriber w of
        None \<Rightarrow> ([Error ''Model not loaded''], None, w)
      | Some m \<Rightarrow>
          (let w1 = w\<lparr>invocations := invocations w @ [audio]\<rparr>
           in case m audio of
                Inl e \<Rightarrow> ([], Some e, w1)
              | Inr result \<Rightarrow>
                  (case result_text result of
                     Inl e \<Rightarrow> ([], Some e, w1)
                   | Inr text \<Rightarrow> ([Result (trim text)], None, w1))))"

text \<open>
  The text that \<^verbatim>\<open>`${err}`\<close> gives for an exception. For the exceptions of the platform
  the wording is the engine's; the model keeps their names.
\<close>

fun render :: "exn \<Rightarrow> string" where
  "render (Thrown msg) = msg"
| "render RangeError = ''RangeError''"
| "render TypeError = ''TypeError''"
| "render NaNSample = ''NaN''"

text \<open>
  \<^verbatim>\<open>
  self.onmessage = async (e: MessageEvent<WorkerRequest>) => {
    const { type } = e.data;
    if (type === "load") {
      try { await loadModel(); }
      catch (err) { self.postMessage({ type: "error", error: `Model load failed: ${err}` }); }
    } else if (type === "transcribe") {
      try { await transcribe(e.data.audio); }
      catch (err) { self.postMessage({ type: "error", error: `Transcription failed: ${err}` }); }
    }
  };
  \<close>
  The handler of one request, taken as one step: the responses it posts, in order, and
  the state after it.
\<close>

definition onmessage :: "worker \<Rightarrow> WorkerRequest \<Rightarrow> load_env \<Rightarrow> WorkerResponse list \<times> worker" where
  "onmessage w req env =
     (case req of
        Load \<Rightarrow>
          (case loadModel w env of
             (posted, None, w') \<Rightarrow> (posted, w')
           | (posted, Some err, w') \<Rightarrow>
               (posted @ [Error (''Model load failed: '' @ render err)], w'))
      | Transcribe audio \<Rightarrow>
          (case transcribe w audio of
             (posted, None, w') \<Rightarrow> (posted, w')
           | (posted, Some err, w') \<Rightarrow>
               (posted @ [Error (''Transcription failed: '' @ render err)], w')))"

text \<open>A history of requests, each with what its environment does, handled in order.\<close>

fun worker_run :: "worker \<Rightarrow> (WorkerRequest \<times> load_env) list \<Rightarrow> worker" where
  "worker_run w [] = w"
| "worker_run w ((req, env) # rest) = worker_run (snd (onmessage w req env)) rest"

text \<open>No \<open>load\<close> of the history has completed successfully.\<close>

fun no_load_succeeded :: "(WorkerRequest \<times> load_env) list \<Rightarrow> bool" where
  "no_load_succeeded [] = True"
| "no_load_succeeded ((Load, env) # rest) = (isl (outcome env) \<and> no_load_succeeded rest)"
| "no_load_succeeded ((Transcribe audio, env) # rest) = no_load_succeeded rest"

definition is_error :: "WorkerResponse \<Rightarrow> bool" where
  "is_error r = (case r of Error msg \<Rightarrow> True | _ \<Rightarrow> False)"

definition is_result :: "WorkerResponse \<Rightarrow> bool" where
  "is_result r = (case r of Result text \<Rightarrow> True | _ \<Rightarrow> False)"

section \<open>Recording session\<close>

text \<open>
  The controller (\<^verbatim>\<open>main.ts\<close>) keeps its state in module variables and in the page:
  \<^verbatim>\<open>audioCapture\<close> (set or \<^verbatim>\<open>null\<close>), \<^verbatim>\<open>recording\<close>, the text of the status element,
  the text, the \<^verbatim>\<open>disabled\<close> flag and the \<^verbatim>\<open>recording\<close> class of the record button, the
  log, the text shown on the glasses (when there is a bridge), and the requests posted to
  the worker.
\<close>

datatype log_type = info | event_type | error

text \<open>
  The entries of the log. An entry of the source is a formatted text; the model keeps
  what the text is made from.
\<close>

datatype log_msg =
    RecordingStarted
  | Captured nat
  | TooShort
  | AudioDecodeError exn

record session =
  audioCapture :: bool
  recording :: bool
  has_bridge :: bool
  display :: string
  status_text :: string
  btn_text :: string
  btn_disabled :: bool
  btn_recording :: bool
  log_entries :: "(log_msg \<times> log_type) list"
  posted :: "WorkerRequest list"

text \<open>\<^verbatim>\<open>log(msg, type)\<close> prepends an entry.\<close>

definition log' :: "log_msg \<Rightarrow> log_type \<Rightarrow> session \<Rightarrow> session" where
  "log' msg ty s = s\<lparr>log_entries := (msg, ty) # log_entries s\<rparr>"

text \<open>
  \<^verbatim>\<open>
  function updateDisplay(text: string) {
    if (!bridge) return;
    bridge.textContainerUpgrade(...content: text...);
  }
  \<close>
\<close>

definition updateDisplay :: "string \<Rightarrow> session \<Rightarrow> session" where
  "updateDisplay text s = (if \<not> has_bridge s then s else s\<lparr>display := text\<rparr>)"

text \<open>
  \<^verbatim>\<open>
  function startRecording() {
    if (!audioCapture) return;
    recording = true;
    audioCapture.start();
    statusEl.textContent = "Recording...";
    recordBtn.textContent = "Stop";
    recordBtn.classList.add("recording");
    updateDisplay("Recording...");
    log("Recording started", "event");
  }
  \<close>
\<close>

definition startRecording :: "session \<Rightarrow> session" where
  "startRecording s =
     (if \<not> audioCapture s then s
      else log' RecordingStarted event_type
             (updateDisplay ''Recording...''
                (s\<lparr>recording := True, status_text := ''Recording...'', btn_text := ''Stop'',
                   btn_recording := True\<rparr>)))"

text \<open>
  \<^verbatim>\<open>
  async function stopRecording() {
    if (!audioCapture || !recording) return;
    recording = false;
    recordBtn.textContent = "...";
    recordBtn.classList.remove("recording");
    recordBtn.disabled = true;
    try {
      const audio = await audioCapture.stop();
      const durationSec = audio.length / 16000;
      log(`Captured ${audio.length} samples (${durationSec.toFixed(1)}s)`, "info");
      if (audio.length < 1600) {
        log("Recording too short, ignoring", "error");
        statusEl.textContent = "Too short - try again";
        recordBtn.textContent = "Record";
        recordBtn.disabled = false;
        return;
      }
      statusEl.textContent = "Transcribing...";
      updateDisplay("Transcribing...");
      worker.postMessage({ type: "transcribe", audio }, [audio.buffer]);
      recordBtn.disabled = false;
    } catch (err) {
      log(`Audio decode error: ${err}`, "error");
      statusEl.textContent = "Audio error - try again";
      recordBtn.textContent = "Record";
      recordBtn.disabled = false;
    }
  }
  \<close>
  \<open>stopped\<close> is what the promise of \<^verbatim>\<open>audioCapture.stop()\<close> settles to: the samples of
  the buffer, or the exception. The calls of the page, of the bridge and of the worker's
  port are taken not to throw.
\<close>

definition stopRecording :: "session \<Rightarrow> exn + real list \<Rightarrow> session" where
  "stopRecording s stopped =
     (if \<not> audioCapture s \<or> \<not> recording s then s
      else
        (let s1 = s\<lparr>recording := False, btn_text := ''...'', btn_recording := False,
                    btn_disabled := True\<rparr>
         in case stopped of
              Inr audio \<Rightarrow>
                (let s2 = log' (Captured (length audio)) info s1
                 in if length audio < 1600
                    then (log' TooShort error s2)
                           \<lparr>status_text := ''Too short - try again'', btn_text := ''Record'',
                            btn_disabled := False\<rparr>
                    else (updateDisplay ''Transcribing...''
                            (s2\<lparr>status_text := ''Transcribing...''\<rparr>))
                           \<lparr>posted := posted s2 @ [Transcribe audio], btn_disabled := False\<rparr>)
            | Inl err \<Rightarrow>
                (log' (AudioDecodeError err) error s1)
                  \<lparr>status_text := ''Audio error - try again'', btn_text := ''Record'',
                   btn_disabled := False\<rparr>))"

text \<open>
  Idle, as the page shows it: not recording, the record button enabled and labelled
  "Record".
\<close>

definition idle :: "session \<Rightarrow> bool" where
  "idle s \<longleftrightarrow> \<not> recording s \<and> \<not> btn_disabled s \<and> btn_text s = ''Record''"

section \<open>Signal resampler, in the arithmetic of the source\<close>

text \<open>
  The numbers of the source are IEEE 754 binary64 values, and a \<^verbatim>\<open>Float32Array\<close> stores
  binary32 values: every arithmetic operation yields the real result rounded to the
  nearest binary64 value, a tie going to the even one, and a store into the array rounds
  once more, to binary32. The definitions \<open>resample_sample\<close>, \<open>resample_loop\<close> and
  \<open>resample\<close> above leave the rounding out. The definitions of this section follow
  the same source text with every rounding in its place.
\<close>

text \<open>The exponent of the binade of a number other than 0: \<open>2^e \<le> |x| < 2^(e+1)\<close>.\<close>

definition binade :: "real \<Rightarrow> int" where
  "binade x =
     (if 1 \<le> \<bar>x\<bar> then bitlen \<lfloor>\<bar>x\<bar>\<rfloor> - 1 else - bitlen (\<lceil>1 / \<bar>x\<bar>\<rceil> - 1))"

text \<open>The nearest integer, a tie going to the even one.\<close>

definition rne :: "real \<Rightarrow> int" where
  "rne z =
     (let f = \<lfloor>z\<rfloor>; d = z - of_int f
      in if d < 1/2 then f else if 1/2 < d then f + 1 else if even f then f else f + 1)"

text \<open>
  Rounding to a binary format of precision \<open>p\<close> bits whose smallest normal exponent is
  \<open>emin\<close>: the nearest multiple of the unit in the last place of the binade of \<open>x\<close>
  (of the smallest binade for subnormal numbers). The result may exceed the largest
  number of the format; the format's overflow is decided by \<open>f64\<close> and \<open>f32\<close>.
\<close>

definition rnd :: "nat \<Rightarrow> int \<Rightarrow> real \<Rightarrow> real" where
  "rnd p emin x =
     (if x = 0 then 0
      else let q = max (binade x) emin - int p + 1
           in of_int (rne (x / 2 powi q)) * 2 powi q)"

definition fl64 :: "real \<Rightarrow> real" where
  "fl64 = rnd 53 (- 1022)"

definition fl32 :: "real \<Rightarrow> real" where
  "fl32 = rnd 24 (- 126)"

text \<open>
  The result of an operation as a binary64 value, and of a store as a binary32 value:
  \<open>None\<close> when the rounded result is beyond the largest finite number of the format,
  which makes it an infinity.
\<close>

definition f64 :: "real \<Rightarrow> real option" where
  "f64 x = (if \<bar>fl64 x\<bar> < 2 ^ 1024 then Some (fl64 x) else None)"

definition f32 :: "real \<Rightarrow> real option" where
  "f32 x = (if \<bar>fl32 x\<bar> < 2 ^ 128 then Some (fl32 x) else None)"

text \<open>The largest finite binary32 number.\<close>

definition f32_max :: real where
  "f32_max = (2 ^ 24 - 1) * 2 ^ 104"

text \<open>
  The body of the loop, operation by operation:
  \<^verbatim>\<open>
  const srcIdx = i / ratio;
  const lo = Math.floor(srcIdx);
  const hi = Math.min(lo + 1, raw.length - 1);
  const frac = srcIdx - lo;
  out[i] = raw[lo] * (1 - frac) + raw[hi] * frac;
  \<close>
  \<open>None\<close> stands for a sample that is not a finite number: an operand was
  \<^verbatim>\<open>undefined\<close> or an infinity (a division by a ratio of 0 gives an infinity or NaN),
  and every operation on such an operand gives an infinity or NaN again. The counter, the
  indices and the length are integers below \<open>2^53\<close>, which binary64 holds exactly.
\<close>

definition resample_sample_ieee :: "real list \<Rightarrow> real \<Rightarrow> nat \<Rightarrow> real option" where
  "resample_sample_ieee raw ratio i =
     (case (if ratio = 0 then None else f64 (real i / ratio)) of
        None \<Rightarrow> None
      | Some srcIdx \<Rightarrow>
          (let lo = \<lfloor>srcIdx\<rfloor>;
               hi = min (lo + 1) (int (length raw) - 1)
           in case f64 (srcIdx - of_int lo) of
                None \<Rightarrow> None
              | Some fr \<Rightarrow>
                  (case read_elem raw lo of
                     None \<Rightarrow> None
                   | Some a \<Rightarrow>
                       (case f64 (1 - fr) of
                          None \<Rightarrow> None
                        | Some omf \<Rightarrow>
                            (case f64 (a * omf) of
                               None \<Rightarrow> None
                             | Some t1 \<Rightarrow>
                                 (case read_elem raw hi of
                                    None \<Rightarrow> None
                                  | Some b \<Rightarrow>
                                      (case f64 (b * fr) of
                                         None \<Rightarrow> None
                                       | Some t2 \<Rightarrow>
                                           (case f64 (t1 + t2) of
                                              None \<Rightarrow> None
                                            | Some v \<Rightarrow> f32 v))))))))"

function resample_loop_ieee :: "heap \<Rightarrow> ref \<Rightarrow> ref \<Rightarrow> real \<Rightarrow> nat \<Rightarrow> nat \<Rightarrow> exn + heap" where
  "resample_loop_ieee h out raw ratio outLen i =
     (if i < outLen
      then (case resample_sample_ieee (h ! raw) ratio i of
              None \<Rightarrow> Inl NaNSample
            | Some v \<Rightarrow> resample_loop_ieee (write_elem h out i v) out raw ratio outLen (Suc i))
      else Inr h)"
  by pat_completeness auto
termination
  by (relation "measure (\<lambda>(h, out, raw, ratio, outLen, i). outLen - i)") auto

declare resample_loop_ieee.simps [simp del]

text \<open>
  \<^verbatim>\<open>
  if (this.nativeSampleRate === 16000) return new Float32Array(raw);
  const ratio = 16000 / this.nativeSampleRate;
  const outLen = Math.round(raw.length * ratio);
  const out = new Float32Array(outLen);
  for (let i = 0; i < outLen; i++) { ... }
  return out;
  \<close>
  An infinite ratio (a rate of 0, or a quotient beyond the binary64 range) makes the
  length NaN for an empty input, for which an empty array is allocated, and infinite
  otherwise, for which the allocation throws; so does a product beyond the range. A
  length that is negative or not below \<open>2^53\<close> throws as well; the store is unbounded,
  so that an allocation of any other length succeeds. \<^verbatim>\<open>Math.round\<close> is exact on a
  binary64 value.
\<close>

definition resample_ieee :: "real \<Rightarrow> heap \<Rightarrow> ref \<Rightarrow> exn + (ref \<times> heap)" where
  "resample_ieee native h raw =
     (if native = 16000 then Inr (copy_Float32Array h raw)
      else
        (case (if native = 0 then None else f64 (16000 / native)) of
           None \<Rightarrow> (if h ! raw = [] then Inr (new_Float32Array h 0) else Inl RangeError)
         | Some ratio \<Rightarrow>
             (case f64 (real (length (h ! raw)) * ratio) of
                None \<Rightarrow> Inl RangeError
              | Some p \<Rightarrow>
                  (let outLen = js_round p
                   in if outLen < 0 \<or> 2 ^ 53 \<le> outLen then Inl RangeError
                      else
                        (case new_Float32Array h (nat outLen) of
                           (out, h1) \<Rightarrow>
                             (case resample_loop_ieee h1 out raw ratio (nat outLen) 0 of
                                Inl e \<Rightarrow> Inl e
                              | Inr h2 \<Rightarrow> Inr (out, h2)))))))"

text \<open>
  The contract in the words of the specification, with the rounding of the source: the
  linear interpolation of \<open>raw\<close> at the source position \<open>i / ratio\<close>, every operation
  rounded to binary64 and the result to binary32, the upper index clamped to the last
  valid one.
\<close>

definition lerp_ieee :: "real list \<Rightarrow> real \<Rightarrow> nat \<Rightarrow> real" where
  "lerp_ieee raw ratio i =
     (let pos = fl64 (real i / ratio);
          lo = \<lfloor>pos\<rfloor>;
          hi = min (lo + 1) (int (length raw) - 1);
          fr = fl64 (pos - of_int lo)
      in fl32 (fl64 (fl64 (raw ! nat lo * fl64 (1 - fr)) + fl64 (raw ! nat hi * fr))))"

section \<open>Properties of the chunk merger\<close>

lemma totalLength_foldl:
  "foldl (\<lambda>sum c. sum + length (h ! c)) n chunks = n + sum_list (map (\<lambda>c. length (h ! c)) chunks)"
  by (induction chunks arbitrary: n) simp_all

lemma totalLength_sum: "totalLength h chunks = sum_list (map (\<lambda>c. length (h ! c)) chunks)"
  by (simp add: totalLength_def totalLength_foldl)

lemma totalLength_concat: "totalLength h chunks = length (concat (map (\<lambda>c. h ! c) chunks))"
  by (simp add: totalLength_sum length_concat comp_def)

text \<open>
  The loop invariant: with the first \<open>offset\<close> positions of the merged buffer holding
  \<open>done\<close>, and room for the remaining chunks, the loop ends with the remaining chunks
  appended to \<open>done\<close>, and no other object of the store changed.
\<close>

lemma merge_loop_appends:
  assumes "\<forall>c \<in> set chunks. c < length h0"
    and "length h = Suc (length h0)"
    and "take (length h0) h = h0"
    and "h ! length h0 = done @ rest"
    and "length rest = length (concat (map (\<lambda>c. h0 ! c) chunks))"
  shows "merge_loop h (length h0) chunks (length done) =
           Inr (h0 @ [done @ concat (map (\<lambda>c. h0 ! c) chunks)])"
  using assms
proof (induction chunks arbitrary: h "done" rest)
  case Nil
  then have "rest = []" by simp
  with Nil have "h ! length h0 = done" by simp
  have "h = take (length h0) h @ [h ! length h0]"
    using Nil.prems(2) by (metis lessI take_Suc_conv_app_nth take_all order_refl)
  with Nil.prems(3) \<open>h ! length h0 = done\<close> have "h = h0 @ [done]" by simp
  then show ?case by simp
next
  case (Cons c cs)
  let ?m = "length h0"
  let ?s = "h0 ! c"
  from Cons.prems have c: "c < ?m" by simp
  have hc: "h ! c = ?s"
    using Cons.prems(3) c by (metis nth_take)
  have fits: "\<not> length (h ! ?m) < length done + length ?s"
    using Cons.prems(4,5) by simp
  define h' where
    "h' = h[?m := take (length done) (h ! ?m) @ ?s @ drop (length done + length ?s) (h ! ?m)]"
  have step: "typed_set h ?m c (length done) = Inr h'"
    using fits hc by (simp add: typed_set_def Let_def h'_def)
  have len': "length h' = Suc ?m" using Cons.prems(2) by (simp add: h'_def)
  have take': "take ?m h' = h0" using Cons.prems(3) by (simp add: h'_def)
  have hc': "h' ! c = ?s"
    using take' c by (metis nth_take)
  have cell: "h' ! ?m = (done @ ?s) @ drop (length ?s) rest"
    using Cons.prems(2,4) by (simp add: h'_def)
  have room: "length (drop (length ?s) rest) = length (concat (map (\<lambda>c. h0 ! c) cs))"
    using Cons.prems(5) by simp
  have cs: "\<forall>c \<in> set cs. c < ?m" using Cons.prems(1) by simp
  from Cons.IH [OF cs len' take' cell room]
  have "merge_loop h' ?m cs (length (done @ ?s)) =
          Inr (h0 @ [(done @ ?s) @ concat (map (\<lambda>c. h0 ! c) cs)])" .
  then show ?case using step hc' by simp
qed

lemma mergeChunks_concat:
  assumes "\<forall>c \<in> set chunks. valid h c"
  shows "mergeChunks h chunks = Inr (length h, h @ [concat (map (\<lambda>c. h ! c) chunks)])"
proof -
  let ?n = "totalLength h chunks"
  have 1: "\<forall>c \<in> set chunks. c < length h" using assms by (simp add: valid_def)
  have 2: "length (h @ [replicate ?n 0]) = Suc (length h)" by simp
  have 3: "take (length h) (h @ [replicate ?n 0]) = h" by simp
  have 4: "(h @ [replicate ?n 0]) ! length h = [] @ replicate ?n 0" by simp
  have 5: "length (replicate ?n (0::real)) = length (concat (map (\<lambda>c. h ! c) chunks))"
    by (simp add: totalLength_concat)
  from merge_loop_appends [OF 1 2 3 4 5]
  have "merge_loop (h @ [replicate ?n 0]) (length h) chunks 0 =
          Inr (h @ [concat (map (\<lambda>c. h ! c) chunks)])"
    by simp
  then show ?thesis by (simp add: mergeChunks_def new_Float32Array_def)
qed

lemma concat_nth_offset:
  "k < length xss \<Longrightarrow> j < length (xss ! k) \<Longrightarrow>
     concat xss ! (length (concat (take k xss)) + j) = xss ! k ! j"
proof (induction xss arbitrary: k)
  case Nil
  then show ?case by simp
next
  case (Cons xs xss)
  show ?case
  proof (cases k)
    case 0
    with Cons.prems show ?thesis by (simp add: nth_append)
  next
    case (Suc k')
    with Cons.prems have "concat xss ! (length (concat (take k' xss)) + j) = xss ! k' ! j"
      by (intro Cons.IH) simp_all
    with Suc show ?thesis by (simp add: nth_append add.assoc)
  qed
qed

lemma chunk_offset_concat:
  "chunk_offset h chunks k = length (concat (take k (map (\<lambda>c. h ! c) chunks)))"
  by (simp add: chunk_offset_def length_concat take_map comp_def)

text \<open>
  Claim C4. For every sequence of sample buffers of the store, the chunk merger returns
  one buffer, freshly allocated, whose length is the sum of the input lengths and whose
  contents are the inputs concatenated in order: position \<open>chunk_offset k + j\<close> of the
  output holds sample \<open>j\<close> of input \<open>k\<close>. It never throws, every buffer that existed
  before the call (the inputs among them) has the contents it had, and the empty sequence
  yields an empty buffer.
\<close>

theorem mergeChunks_concatenates:
  assumes "\<forall>c \<in> set chunks. valid h c"
  shows "\<exists>merged h'. mergeChunks h chunks = Inr (merged, h') \<and>
           \<not> valid h merged \<and> valid h' merged \<and>
           length (h' ! merged) = sum_list (map (\<lambda>c. length (h ! c)) chunks) \<and>
           h' ! merged = concat (map (\<lambda>c. h ! c) chunks) \<and>
           (\<forall>k < length chunks. \<forall>j < length (h ! (chunks ! k)).
              h' ! merged ! (chunk_offset h chunks k + j) = h ! (chunks ! k) ! j) \<and>
           (\<forall>r. valid h r \<longrightarrow> valid h' r \<and> h' ! r = h ! r) \<and>
           (chunks = [] \<longrightarrow> h' ! merged = [])"
proof -
  let ?xss = "map (\<lambda>c. h ! c) chunks"
  let ?h' = "h @ [concat ?xss]"
  have run: "mergeChunks h chunks = Inr (length h, ?h')"
    using assms by (rule mergeChunks_concat)
  have cell: "?h' ! length h = concat ?xss" by simp
  have len: "length (concat ?xss) = sum_list (map (\<lambda>c. length (h ! c)) chunks)"
    by (simp add: length_concat comp_def)
  have pos: "\<forall>k < length chunks. \<forall>j < length (h ! (chunks ! k)).
               concat ?xss ! (chunk_offset h chunks k + j) = h ! (chunks ! k) ! j"
  proof (intro allI impI)
    fix k j
    assume k: "k < length chunks" and j: "j < length (h ! (chunks ! k))"
    from k j have "concat ?xss ! (length (concat (take k ?xss)) + j) = ?xss ! k ! j"
      by (intro concat_nth_offset) simp_all
    with k show "concat ?xss ! (chunk_offset h chunks k + j) = h ! (chunks ! k) ! j"
      by (simp add: chunk_offset_concat)
  qed
  have frame: "\<forall>r. valid h r \<longrightarrow> valid ?h' r \<and> ?h' ! r = h ! r"
    by (simp add: valid_def nth_append)
  have fresh: "\<not> valid h (length h) \<and> valid ?h' (length h)"
    by (simp add: valid_def)
  show ?thesis
    using run cell len pos frame fresh by (intro exI [of _ "length h"] exI [of _ ?h']) simp
qed

theorem mergeChunks_concatenates_witness:
  "valid [[1, -1, 1/2], [1/4]] 0 \<and> valid [[1, -1, 1/2], [1/4]] 1 \<and>
   (\<exists>merged h'. mergeChunks [[1, -1, 1/2], [1/4]] [0, 1] = Inr (merged, h') \<and>
      h' ! merged = [1, -1, 1/2, 1/4] \<and> h' ! 0 = [1, -1, 1/2] \<and> h' ! 1 = [1/4])"
proof -
  have v: "\<forall>c \<in> set [0, 1]. valid [[1, -1, 1/2], [1/4]] c"
    by (simp add: valid_def)
  from mergeChunks_concatenates [OF v] obtain merged h' where
    run: "mergeChunks [[1, -1, 1/2], [1/4]] [0, 1] = Inr (merged, h')" and
    cell: "h' ! merged = concat (map (\<lambda>c. [[1, -1, 1/2], [1/4]] ! c) [0, 1])" and
    frame: "\<forall>r. valid [[1, -1, 1/2], [1/4]] r \<longrightarrow> valid h' r \<and> h' ! r = [[1, -1, 1/2], [1/4]] ! r"
    by blast
  from frame have "h' ! 0 = [1, -1, 1/2]" "h' ! 1 = [1/4]"
    by (simp_all add: valid_def)
  with v run cell show ?thesis by simp
qed

section \<open>Properties of the PCM conversion\<close>











text \<open>
  The quotient is a 16-bit integer over a power of two, so it is a number of the
  \<^verbatim>\<open>Float32Array\<close> (24 bits of mantissa): storing it rounds nothing away, and the real
  number of the model is the stored sample.
\<close>

lemma int16_to_float_exact:
  "\<exists>m :: int. \<bar>m\<bar> < 2 ^ 24 \<and> int16_to_float w = real_of_int m / 2 ^ 15"
proof -
  have "- 32768 \<le> sint w" "sint w < 32768"
    using sint_ge [of w] sint_lt [of w] by simp_all
  then have "\<bar>sint w\<bar> < 2 ^ 24" by simp
  moreover have "int16_to_float w = real_of_int (sint w) / 2 ^ 15"
    by (simp add: int16_to_float_def del: of_int_sint)
  ultimately show ?thesis by blast
qed




section \<open>Properties of the resampler\<close>

lemma resample_loop_fills:
  assumes "out < length h" and "raw < length h" and "raw \<noteq> out"
    and "length (h ! out) = n" and "i \<le> n"
    and "\<forall>k < n. resample_sample (h ! raw) ratio k = Some (f k)"
  shows "resample_loop h out raw ratio n i = Inr (h[out := take i (h ! out) @ map f [i..<n]])"
  using assms
proof (induction h out raw ratio n i rule: resample_loop.induct)
  case (1 h out raw ratio n i)
  show ?case
  proof (cases "i < n")
    case True
    let ?h' = "write_elem h out i (f i)"
    have s: "resample_sample (h ! raw) ratio i = Some (f i)" using True "1.prems" by simp
    have raw': "?h' ! raw = h ! raw" using "1.prems" by (simp add: write_elem_def)
    have "resample_loop ?h' out raw ratio n (Suc i) =
            Inr (?h'[out := take (Suc i) (?h' ! out) @ map f [Suc i..<n]])"
      using True s "1.prems" raw' by (intro "1.IH") (simp_all add: write_elem_def)
    moreover have "take (Suc i) (?h' ! out) = take i (h ! out) @ [f i]"
      using True "1.prems" by (simp add: write_elem_def take_Suc_conv_app_nth)
    moreover have "[i..<n] = i # [Suc i..<n]"
      using True by (simp add: upt_conv_Cons)
    ultimately show ?thesis
      using True s by (subst resample_loop.simps) (simp add: write_elem_def)
  next
    case False
    with "1.prems" have "i = n" by simp
    then show ?thesis using "1.prems" by (subst resample_loop.simps) simp
  qed
qed

lemma source_index_in_range:
  assumes "0 < ratio" and "i < nat (js_round (real len * ratio))"
  shows "0 \<le> \<lfloor>real i / ratio\<rfloor> \<and> \<lfloor>real i / ratio\<rfloor> < int len"
proof -
  have "int i + 1 \<le> js_round (real len * ratio)" using assms(2) by linarith
  then have "real i + 1 \<le> real len * ratio + 1/2"
    unfolding js_round_def by linarith
  then have "real i < real len * ratio" by linarith
  then have "real i / ratio < real len"
    using assms(1) by (simp add: pos_divide_less_eq)
  then have "\<lfloor>real i / ratio\<rfloor> < int len" by linarith
  moreover have "0 \<le> real i / ratio" using assms(1) by simp
  then have "0 \<le> \<lfloor>real i / ratio\<rfloor>" by linarith
  ultimately show ?thesis by simp
qed

lemma resample_sample_lerp:
  assumes "0 < ratio" and "i < nat (js_round (real (length raw) * ratio))"
  shows "resample_sample raw ratio i = Some (lerp_at raw (real i / ratio))"
proof -
  let ?lo = "\<lfloor>real i / ratio\<rfloor>"
  let ?hi = "min (?lo + 1) (int (length raw) - 1)"
  from source_index_in_range [OF assms] have lo: "0 \<le> ?lo" "?lo < int (length raw)" by simp_all
  then have hi: "0 \<le> ?hi" "?hi < int (length raw)" by linarith+
  show ?thesis
    using lo hi by (simp add: resample_sample_def read_elem_def lerp_at_def Let_def)
qed

lemma lerp_at_integer: "i < length raw \<Longrightarrow> lerp_at raw (real i) = raw ! i"
  by (simp add: lerp_at_def)

lemma resample_result:
  assumes "0 < native" and "valid h raw"
  shows "resample native h raw =
           Inr (length h, h @ [map (\<lambda>i. lerp_at (h ! raw) (real i * native / 16000))
                  [0..<nat (round (real (length (h ! raw)) * 16000 / native))]])"
proof (cases "native = 16000")
  case True
  have "map (\<lambda>i. lerp_at (h ! raw) (real i)) [0..<length (h ! raw)] = h ! raw"
    by (rule nth_equalityI) (simp_all add: lerp_at_integer)
  then show ?thesis using True by (simp add: resample_def copy_Float32Array_def)
next
  case False
  define ratio where "ratio = 16000 / native"
  define n where "n = nat (js_round (real (length (h ! raw)) * ratio))"
  let ?h1 = "h @ [replicate n 0]"
  have ratio: "0 < ratio" using assms(1) by (simp add: ratio_def)
  have nonneg: "\<not> js_round (real (length (h ! raw)) * ratio) < 0"
  proof -
    have "0 \<le> real (length (h ! raw)) * ratio" using ratio by simp
    then show ?thesis unfolding js_round_def by linarith
  qed
  have raw: "raw < length h" using assms(2) by (simp add: valid_def)
  have samples: "\<forall>k < n. resample_sample (?h1 ! raw) ratio k =
                   Some (lerp_at (h ! raw) (real k / ratio))"
    using raw ratio by (simp add: nth_append resample_sample_lerp n_def)
  have "resample_loop ?h1 (length h) raw ratio n 0 =
          Inr (?h1[length h := take 0 (?h1 ! length h) @
                 map (\<lambda>k. lerp_at (h ! raw) (real k / ratio)) [0..<n]])"
    using raw samples by (intro resample_loop_fills) simp_all
  then have loop: "resample_loop ?h1 (length h) raw ratio n 0 =
          Inr (h @ [map (\<lambda>k. lerp_at (h ! raw) (real k / ratio)) [0..<n]])"
    by simp
  have pos: "\<And>k. real k / ratio = real k * native / 16000"
    using assms(1) by (simp add: ratio_def)
  have len: "n = nat (round (real (length (h ! raw)) * 16000 / native))"
    by (simp add: n_def js_round_def round_def ratio_def)
  show ?thesis
    using False assms(1) nonneg loop pos len
    by (simp add: resample_def new_Float32Array_def Let_def ratio_def [symmetric] n_def [symmetric])
qed


text \<open>
  No run of the resampler stores a NaN, whatever the rate: with a positive rate every
  read is inside the input, and otherwise the loop is not entered.
\<close>

lemma resample_never_NaN:
  assumes "valid h raw"
  shows "resample native h raw \<noteq> Inl NaNSample"
proof -
  consider "0 < native" | "native = 0" | "native < 0" by linarith
  then show ?thesis
  proof cases
    case 1
    then show ?thesis using assms by (simp add: resample_result)
  next
    case 2
    then show ?thesis by (simp add: resample_def)
  next
    case 3
    define n where "n = js_round (real (length (h ! raw)) * 16000 / native)"
    have "real (length (h ! raw)) * 16000 / native \<le> 0"
      using 3 by (simp add: divide_nonneg_neg)
    then have "n \<le> 0" unfolding n_def js_round_def by linarith
    then have "nat n = 0" by simp
    then have "resample_loop (h @ [replicate (nat n) 0]) (length h) raw (16000 / native) (nat n) 0 =
                 Inr (h @ [replicate (nat n) 0])"
      by (subst resample_loop.simps) simp
    then show ?thesis
      using 3 by (simp add: resample_def Let_def new_Float32Array_def n_def [symmetric])
  qed
qed

text \<open>
  Claim C7. At a native rate of 16000 the resampler returns a copy: a freshly allocated
  buffer, different from the input buffer, with the samples of the input, whatever its
  length. The input keeps its contents, also when the copy is written to afterwards.
\<close>

theorem resample_identity:
  assumes "valid h raw"
  shows "\<exists>out h'. resample 16000 h raw = Inr (out, h') \<and>
           h' ! out = h ! raw \<and>
           out \<noteq> raw \<and> \<not> valid h out \<and> valid h' out \<and>
           (\<forall>r. valid h r \<longrightarrow> h' ! r = h ! r) \<and>
           (\<forall>i v. write_elem h' out i v ! raw = h ! raw)"
proof -
  let ?h' = "h @ [h ! raw]"
  have raw: "raw < length h" using assms by (simp add: valid_def)
  have "resample 16000 h raw = Inr (length h, ?h')"
    by (simp add: resample_def copy_Float32Array_def)
  moreover have "?h' ! length h = h ! raw" by simp
  moreover have "length h \<noteq> raw" using raw by simp
  moreover have "\<not> valid h (length h) \<and> valid ?h' (length h)" by (simp add: valid_def)
  moreover have "\<forall>r. valid h r \<longrightarrow> ?h' ! r = h ! r" by (simp add: valid_def nth_append)
  moreover have "\<forall>i v. write_elem ?h' (length h) i v ! raw = h ! raw"
    using raw by (simp add: write_elem_def nth_append)
  ultimately show ?thesis by blast
qed

theorem resample_identity_witness:
  "valid [[], [1/3, -1]] 0 \<and> valid [[], [1/3, -1]] 1 \<and>
   (\<exists>out h'. resample 16000 [[], [1/3, -1]] 0 = Inr (out, h') \<and> h' ! out = [] \<and> out \<noteq> 0) \<and>
   (\<exists>out h'. resample 16000 [[], [1/3, -1]] 1 = Inr (out, h') \<and> h' ! out = [1/3, -1] \<and> out \<noteq> 1)"
proof -
  have v0: "valid [[], [1/3, -1]] 0" and v1: "valid [[], [1/3, -1]] 1"
    by (simp_all add: valid_def)
  from resample_identity [OF v0] have
    "\<exists>out h'. resample 16000 [[], [1/3, -1]] 0 = Inr (out, h') \<and> h' ! out = [] \<and> out \<noteq> 0"
    by auto
  moreover from resample_identity [OF v1] have
    "\<exists>out h'. resample 16000 [[], [1/3, -1]] 1 = Inr (out, h') \<and> h' ! out = [1/3, -1] \<and> out \<noteq> 1"
    by auto
  ultimately show ?thesis using v0 v1 by blast
qed


section \<open>Properties of the rounding\<close>

lemma binade_bounds:
  assumes "x \<noteq> 0"
  shows "2 powi binade x \<le> \<bar>x\<bar>" and "\<bar>x\<bar> < 2 powi (binade x + 1)"
proof -
  define a where "a = \<bar>x\<bar>"
  have a: "0 < a" using assms by (simp add: a_def)
  have "2 powi binade x \<le> a \<and> a < 2 powi (binade x + 1)"
  proof (cases "1 \<le> a")
    case True
    define m where "m = \<lfloor>a\<rfloor>"
    have m: "0 < m" using True by (simp add: m_def)
    define k where "k = bitlen m"
    have k: "1 \<le> k" using m by (simp add: k_def bitlen_alt_def)
    from bitlen_bounds [OF m] have b: "2 ^ nat (k - 1) \<le> m" "m < 2 ^ nat k"
      by (simp_all add: k_def)
    have e: "binade x = k - 1" using True by (simp add: binade_def a_def m_def k_def)
    have "real_of_int (2 ^ nat (k - 1)) \<le> real_of_int m" using b(1) by (simp only: of_int_le_iff)
    also have "real_of_int m \<le> a" by (simp add: m_def)
    finally have lo: "2 powi (k - 1) \<le> a" using k by (simp add: power_int_def)
    have "m + 1 \<le> 2 ^ nat k" using b(2) by simp
    then have "real_of_int (m + 1) \<le> real_of_int (2 ^ nat k)" by (simp only: of_int_le_iff)
    moreover have "a < real_of_int (m + 1)" by (simp add: m_def)
    ultimately have "a < 2 ^ nat k" by simp
    then have hi: "a < 2 powi k" using k by (simp add: power_int_def)
    from lo hi e show ?thesis by simp
  next
    case False
    define y where "y = 1 / a"
    have y: "1 < y" using False a by (simp add: y_def)
    define n where "n = \<lceil>y\<rceil> - 1"
    have n: "0 < n" using y by (simp add: n_def)
    define k where "k = bitlen n"
    have k: "1 \<le> k" using n by (simp add: k_def bitlen_alt_def)
    from bitlen_bounds [OF n] have b: "2 ^ nat (k - 1) \<le> n" "n < 2 ^ nat k"
      by (simp_all add: k_def)
    have e: "binade x = - k" using False by (simp add: binade_def a_def y_def n_def k_def)
    have ny: "real_of_int n < y" "y \<le> real_of_int n + 1" unfolding n_def by linarith+
    have "real_of_int (2 ^ nat (k - 1)) \<le> real_of_int n" using b(1) by (simp only: of_int_le_iff)
    then have "(2::real) ^ nat (k - 1) \<le> real_of_int n" by simp
    with ny(1) have y_lo: "2 ^ nat (k - 1) < y" by linarith
    have "n + 1 \<le> 2 ^ nat k" using b(2) by simp
    then have "real_of_int (n + 1) \<le> real_of_int (2 ^ nat k)" by (simp only: of_int_le_iff)
    then have "real_of_int n + 1 \<le> (2::real) ^ nat k" by simp
    with ny(2) have y_hi: "y \<le> 2 ^ nat k" by linarith
    have ay: "a = 1 / y" using a by (simp add: y_def)
    have "1 / 2 ^ nat k \<le> 1 / y" using y_hi y by (simp add: frac_le)
    then have lo: "2 powi (- k) \<le> a"
      using k ay by (simp add: power_int_def field_simps)
    have "1 / y < 1 / 2 ^ nat (k - 1)" using y_lo by (simp add: frac_less2)
    moreover have "(2::real) powi (- k + 1) = 1 / 2 ^ nat (k - 1)"
    proof -
      have "- k + 1 = - (k - 1)" by simp
      then have "(2::real) powi (- k + 1) = 2 powi (- (k - 1))" by simp
      also have "\<dots> = 1 / 2 powi (k - 1)" by (rule power_int_minus_divide)
      also have "\<dots> = 1 / 2 ^ nat (k - 1)" using k by (simp add: power_int_def)
      finally show ?thesis .
    qed
    ultimately have hi: "a < 2 powi (- k + 1)" using ay by simp
    from lo hi e show ?thesis by simp
  qed
  then show "2 powi binade x \<le> \<bar>x\<bar>" and "\<bar>x\<bar> < 2 powi (binade x + 1)"
    by (simp_all add: a_def)
qed

lemma pow2_le_imp_le: "(2::real) powi m \<le> 2 powi n \<Longrightarrow> m \<le> n"
proof (rule ccontr)
  assume le: "(2::real) powi m \<le> 2 powi n" and "\<not> m \<le> n"
  then have "n < m" by simp
  then have "(2::real) powi n < 2 powi m" by (rule power_int_strict_increasing) simp
  with le show False by simp
qed

lemma rne_floor: "\<lfloor>z\<rfloor> \<le> rne z" and rne_ceil: "rne z \<le> \<lfloor>z\<rfloor> + 1"
  by (simp_all add: rne_def Let_def)

lemma rne_error: "\<bar>real_of_int (rne z) - z\<bar> \<le> 1 / 2"
proof -
  have "real_of_int \<lfloor>z\<rfloor> \<le> z" "z < real_of_int \<lfloor>z\<rfloor> + 1" by linarith+
  then show ?thesis by (auto simp add: rne_def Let_def)
qed

lemma rne_of_int [simp]: "rne (real_of_int k) = k"
  by (simp add: rne_def Let_def)

lemma rne_le: "z \<le> real_of_int k \<Longrightarrow> rne z \<le> k"
proof -
  assume z: "z \<le> real_of_int k"
  then have f: "\<lfloor>z\<rfloor> \<le> k" by (simp add: floor_le_iff) 
  show ?thesis
  proof (cases "\<lfloor>z\<rfloor> = k")
    case True
    with z have "z = real_of_int k" by linarith
    then show ?thesis by simp
  next
    case False
    with f have "\<lfloor>z\<rfloor> + 1 \<le> k" by simp
    with rne_ceil [of z] show ?thesis by linarith
  qed
qed

lemma rne_ge: "real_of_int k \<le> z \<Longrightarrow> k \<le> rne z"
proof -
  assume "real_of_int k \<le> z"
  then have "k \<le> \<lfloor>z\<rfloor>" by (simp add: le_floor_iff)
  with rne_floor [of z] show ?thesis by linarith
qed

lemma rne_le_half: "z < real_of_int k + 1 / 2 \<Longrightarrow> rne z \<le> k"
proof -
  assume z: "z < real_of_int k + 1 / 2"
  have "real_of_int (rne z) \<le> z + 1 / 2" using rne_error [of z] by linarith
  with z have "real_of_int (rne z) < real_of_int k + 1" by linarith
  then show ?thesis by linarith
qed

lemma rne_ge_half: "real_of_int k - 1 / 2 < z \<Longrightarrow> k \<le> rne z"
proof -
  assume z: "real_of_int k - 1 / 2 < z"
  have "z - 1 / 2 \<le> real_of_int (rne z)" using rne_error [of z] by linarith
  with z have "real_of_int k - 1 < real_of_int (rne z)" by linarith
  then show ?thesis by linarith
qed

lemma rne_abs_le: "\<bar>z\<bar> \<le> real_of_int k \<Longrightarrow> \<bar>rne z\<bar> \<le> k"
proof -
  assume a: "\<bar>z\<bar> \<le> real_of_int k"
  then have "z \<le> real_of_int k" "real_of_int (- k) \<le> z" by simp_all
  then have "rne z \<le> k" "- k \<le> rne z" by (simp_all only: rne_le rne_ge)
  then show ?thesis by simp
qed

text \<open>The quantum of the rounding and the error it bounds.\<close>

lemma rnd_unfold:
  "x \<noteq> 0 \<Longrightarrow>
     rnd p emin x =
       real_of_int (rne (x / 2 powi (max (binade x) emin - int p + 1))) *
       2 powi (max (binade x) emin - int p + 1)"
  by (simp add: rnd_def Let_def)

lemma rnd_zero [simp]: "rnd p emin 0 = 0"
  by (simp add: rnd_def)

lemma rnd_nonneg: "0 \<le> x \<Longrightarrow> 0 \<le> rnd p emin x"
proof (cases "x = 0")
  case True
  then show ?thesis by simp
next
  case False
  assume "0 \<le> x"
  then have "real_of_int 0 \<le> x / 2 powi (max (binade x) emin - int p + 1)" by simp
  then have "0 \<le> rne (x / 2 powi (max (binade x) emin - int p + 1))" by (rule rne_ge)
  then show ?thesis using False by (simp add: rnd_unfold)
qed

lemma rnd_error_quantum:
  assumes "x \<noteq> 0"
  shows "\<bar>rnd p emin x - x\<bar> \<le> 2 powi (max (binade x) emin - int p + 1) / 2"
proof -
  define q where "q = max (binade x) emin - int p + 1"
  define z where "z = x / 2 powi q"
  have pos: "0 < (2::real) powi q" by simp
  have r: "rnd p emin x = real_of_int (rne z) * 2 powi q"
    using assms by (simp add: rnd_unfold q_def z_def)
  have "rnd p emin x - x = real_of_int (rne z) * 2 powi q - z * 2 powi q"
    unfolding r by (simp add: z_def)
  also have "\<dots> = (real_of_int (rne z) - z) * 2 powi q"
    by (simp add: algebra_simps)
  finally have "rnd p emin x - x = (real_of_int (rne z) - z) * 2 powi q" .
  then have "\<bar>rnd p emin x - x\<bar> = \<bar>real_of_int (rne z) - z\<bar> * 2 powi q"
    using pos by (simp add: abs_mult)
  also have "\<dots> \<le> (1 / 2) * 2 powi q"
    using rne_error [of z] pos by (intro mult_right_mono) simp_all
  finally show ?thesis by (simp add: q_def)
qed

lemma rnd_error:
  "\<bar>rnd p emin x - x\<bar> \<le> \<bar>x\<bar> * 2 powi (- int p) + 2 powi (emin - int p)"
proof (cases "x = 0")
  case True
  then show ?thesis by simp
next
  case False
  define e where "e = binade x"
  have split: "(2::real) powi (k - int p + 1) / 2 = 2 powi k * 2 powi (- int p)" for k
  proof -
    have "(2::real) powi (k - int p + 1) = 2 powi (k - int p) * 2 powi 1"
      by (rule power_int_add) simp
    moreover have "(2::real) powi (k - int p) = 2 powi k * 2 powi (- int p)"
      using power_int_add [of "2::real" k "- int p"] by simp
    ultimately show ?thesis by simp
  qed
  have "\<bar>rnd p emin x - x\<bar> \<le> 2 powi (max e emin - int p + 1) / 2"
    using rnd_error_quantum [OF False] by (simp add: e_def)
  also have "\<dots> = 2 powi (max e emin) * 2 powi (- int p)" by (rule split)
  also have "\<dots> \<le> (2 powi e + 2 powi emin) * 2 powi (- int p)"
  proof (intro mult_right_mono)
    show "(2::real) powi max e emin \<le> 2 powi e + 2 powi emin"
      by (cases "e \<le> emin") (simp_all add: max_def)
  qed simp
  also have "\<dots> = 2 powi e * 2 powi (- int p) + 2 powi (emin - int p)"
    using power_int_add [of "2::real" emin "- int p"] by (simp add: algebra_simps)
  also have "\<dots> \<le> \<bar>x\<bar> * 2 powi (- int p) + 2 powi (emin - int p)"
    using binade_bounds(1) [OF False] by (simp add: e_def mult_right_mono)
  finally show ?thesis .
qed

text \<open>Rounding does not leave a power of two that bounds the number.\<close>

lemma rnd_abs_le_pow2:
  assumes "\<bar>x\<bar> \<le> 2 powi k" and "emin \<le> k" and "0 < p"
  shows "\<bar>rnd p emin x\<bar> \<le> 2 powi k"
proof (cases "x = 0")
  case True
  then show ?thesis by simp
next
  case False
  define q where "q = max (binade x) emin - int p + 1"
  have "2 powi binade x \<le> (2::real) powi k"
    using binade_bounds(1) [OF False] assms(1) by linarith
  then have "binade x \<le> k" by (rule pow2_le_imp_le)
  then have qk: "q \<le> k" using assms(2,3) by (simp add: q_def)
  define K where "K = (2::int) ^ nat (k - q)"
  have K: "real_of_int K = 2 powi (k - q)" using qk by (simp add: K_def power_int_def)
  have pos: "0 < (2::real) powi q" by simp
  have kq: "(2::real) powi k = 2 powi (k - q) * 2 powi q"
    using power_int_add [of "2::real" "k - q" q] by simp
  have "\<bar>x / 2 powi q\<bar> = \<bar>x\<bar> / 2 powi q" by simp
  also have "\<dots> \<le> 2 powi k / 2 powi q" using assms(1) pos by (simp add: divide_right_mono)
  also have "\<dots> = real_of_int K" using kq K by simp
  finally have "\<bar>rne (x / 2 powi q)\<bar> \<le> K" by (rule rne_abs_le)
  then have "\<bar>real_of_int (rne (x / 2 powi q))\<bar> \<le> real_of_int K" by linarith
  then have "\<bar>real_of_int (rne (x / 2 powi q))\<bar> * 2 powi q \<le> real_of_int K * 2 powi q"
    using pos by (intro mult_right_mono) simp_all
  then show ?thesis
    using False kq K by (simp add: rnd_unfold q_def [symmetric] abs_mult)
qed

lemma fl64_nonneg: "0 \<le> x \<Longrightarrow> 0 \<le> fl64 x"
  by (simp add: fl64_def rnd_nonneg)

lemma fl64_zero [simp]: "fl64 0 = 0"
  by (simp add: fl64_def)

lemma fl64_abs_le_pow2: "\<bar>x\<bar> \<le> 2 powi k \<Longrightarrow> - 1022 \<le> k \<Longrightarrow> \<bar>fl64 x\<bar> \<le> 2 powi k"
  by (simp add: fl64_def rnd_abs_le_pow2)

lemma fl64_error: "\<bar>fl64 x - x\<bar> \<le> \<bar>x\<bar> / 2 ^ 53 + 1 / 2 ^ 1075"
proof -
  have "\<bar>fl64 x - x\<bar> \<le> \<bar>x\<bar> * 2 powi (- int 53) + 2 powi (- 1022 - int 53)"
    unfolding fl64_def by (rule rnd_error)
  then show ?thesis by (simp add: power_int_minus_divide)
qed

lemma fl64_abs_le: "\<bar>fl64 x\<bar> \<le> \<bar>x\<bar> + \<bar>x\<bar> / 2 ^ 53 + 1"
proof -
  have "1 / 2 ^ 1075 \<le> (1::real)" by simp
  with fl64_error [of x] have "\<bar>fl64 x - x\<bar> \<le> \<bar>x\<bar> / 2 ^ 53 + 1" by linarith
  then show ?thesis by linarith
qed

lemma f64_Some: "\<bar>x\<bar> \<le> 2 ^ 1023 \<Longrightarrow> f64 x = Some (fl64 x)"
proof -
  assume "\<bar>x\<bar> \<le> 2 ^ 1023"
  then have "\<bar>x\<bar> \<le> 2 powi 1023" by simp
  then have "\<bar>fl64 x\<bar> \<le> 2 powi 1023" by (rule fl64_abs_le_pow2) simp
  then have "\<bar>fl64 x\<bar> < 2 ^ 1024" by simp
  then show ?thesis by (simp add: f64_def)
qed

lemma fl32_f32_max:
  assumes "\<bar>v\<bar> < (2 ^ 24 - 1 / 2) * 2 ^ 104"
  shows "f32 v = Some (fl32 v)"
proof -
  have "\<bar>fl32 v\<bar> < 2 ^ 128"
  proof (cases "v = 0")
    case True
    then show ?thesis by (simp add: fl32_def)
  next
    case False
    define e where "e = binade v"
    have v128: "\<bar>v\<bar> < 2 powi 128" using assms by simp
    have "(2::real) powi e \<le> \<bar>v\<bar>" using binade_bounds(1) [OF False] by (simp add: e_def)
    with v128 have "(2::real) powi e \<le> 2 powi 128" by linarith
    then have e128: "e \<le> 128" by (rule pow2_le_imp_le)
    have "e \<noteq> 128"
    proof
      assume "e = 128"
      with \<open>(2::real) powi e \<le> \<bar>v\<bar>\<close> v128 show False by simp
    qed
    with e128 have e: "e \<le> 127" by simp
    show ?thesis
    proof (cases "e = 127")
      case True
      define z where "z = v / 2 powi 104"
      have r: "fl32 v = real_of_int (rne z) * 2 powi 104"
        using False True by (simp add: fl32_def rnd_unfold e_def [symmetric] z_def)
      have "\<bar>z\<bar> < 2 ^ 24 - 1 / 2" using assms by (simp add: z_def field_simps)
      then have "z < real_of_int (2 ^ 24 - 1) + 1 / 2" "real_of_int (- (2 ^ 24 - 1)) - 1 / 2 < z"
        by simp_all
      then have "rne z \<le> 2 ^ 24 - 1" "- (2 ^ 24 - 1) \<le> rne z"
        by (simp_all only: rne_le_half rne_ge_half)
      then have "\<bar>real_of_int (rne z)\<bar> \<le> 2 ^ 24 - 1" by simp
      then have "\<bar>real_of_int (rne z)\<bar> * 2 powi 104 \<le> (2 ^ 24 - 1) * 2 powi 104"
        by (intro mult_right_mono) simp_all
      then show ?thesis by (simp add: r abs_mult)
    next
      case False
      with e have "e + 1 \<le> 127" by simp
      then have "(2::real) powi (e + 1) \<le> 2 powi 127" by (intro power_int_increasing) simp_all
      with binade_bounds(2) [OF \<open>v \<noteq> 0\<close>] have "\<bar>v\<bar> \<le> 2 powi 127" by (simp add: e_def)
      then have "\<bar>fl32 v\<bar> \<le> 2 powi 127" unfolding fl32_def by (rule rnd_abs_le_pow2) simp_all
      then show ?thesis by simp
    qed
  qed
  then show ?thesis by (simp add: f32_def)
qed

text \<open>
  The interpolation of two samples within the binary32 range, as the source computes it,
  is a finite binary32 number.
\<close>

lemma interpolation_finite:
  assumes a: "\<bar>a\<bar> \<le> f32_max" and b: "\<bar>b\<bar> \<le> f32_max"
    and d: "0 \<le> d" "d < 1"
  shows "\<exists>fr omf t1 t2 v.
           f64 d = Some fr \<and> fr = fl64 d \<and>
           f64 (1 - fr) = Some omf \<and> omf = fl64 (1 - fr) \<and>
           f64 (a * omf) = Some t1 \<and> t1 = fl64 (a * omf) \<and>
           f64 (b * fr) = Some t2 \<and> t2 = fl64 (b * fr) \<and>
           f64 (t1 + t2) = Some v \<and> v = fl64 (t1 + t2) \<and>
           f32 v = Some (fl32 v)"
proof -
  define fr where "fr = fl64 d"
  define omf where "omf = fl64 (1 - fr)"
  define t1 where "t1 = fl64 (a * omf)"
  define t2 where "t2 = fl64 (b * fr)"
  define v where "v = fl64 (t1 + t2)"
  have M: "f32_max \<le> 2 ^ 128" "0 \<le> f32_max" by (simp_all add: f32_max_def)
  have fr0: "0 \<le> fr" using d(1) by (simp add: fr_def fl64_nonneg)
  have "\<bar>d\<bar> \<le> 2 powi 0" using d by simp
  then have "\<bar>fl64 d\<bar> \<le> 2 powi 0" by (rule fl64_abs_le_pow2) simp
  then have fr1: "fr \<le> 1" by (simp add: fr_def)
  have 1: "f64 d = Some fr" using d by (simp add: fr_def f64_Some)
  have omf0: "0 \<le> omf" using fr1 by (simp add: omf_def fl64_nonneg)
  have "\<bar>1 - fr\<bar> \<le> 2 powi 0" using fr0 fr1 by simp
  then have "\<bar>fl64 (1 - fr)\<bar> \<le> 2 powi 0" by (rule fl64_abs_le_pow2) simp
  then have omf1: "omf \<le> 1" by (simp add: omf_def)
  have 2: "f64 (1 - fr) = Some omf" using fr0 fr1 by (simp add: omf_def f64_Some)
  have "\<bar>omf - (1 - fr)\<bar> \<le> \<bar>1 - fr\<bar> / 2 ^ 53 + 1 / 2 ^ 1075"
    unfolding omf_def by (rule fl64_error)
  also have "\<dots> \<le> 1 / 2 ^ 53 + 1 / 2 ^ 1075" using fr0 fr1 by (simp add: divide_right_mono)
  also have "\<dots> \<le> 1 / 2 ^ 52" by simp
  finally have s1: "omf + fr \<le> 1 + 1 / 2 ^ 52" by linarith
  have A1: "\<bar>a * omf\<bar> \<le> f32_max * omf"
    using a omf0 by (simp add: abs_mult mult_right_mono)
  have A2: "\<bar>b * fr\<bar> \<le> f32_max * fr"
    using b fr0 by (simp add: abs_mult mult_right_mono)
  have "f32_max * omf \<le> f32_max * 1" using omf1 M(2) by (intro mult_left_mono) simp_all
  with A1 M(1) have A1': "\<bar>a * omf\<bar> \<le> 2 ^ 1023" by simp
  have "f32_max * fr \<le> f32_max * 1" using fr1 M(2) by (intro mult_left_mono) simp_all
  with A2 M(1) have A2': "\<bar>b * fr\<bar> \<le> 2 ^ 1023" by simp
  have 3: "f64 (a * omf) = Some t1" using A1' by (simp add: t1_def f64_Some)
  have 4: "f64 (b * fr) = Some t2" using A2' by (simp add: t2_def f64_Some)
  have "f32_max * (omf + fr) \<le> f32_max * (1 + 1 / 2 ^ 52)"
    using s1 M(2) by (intro mult_left_mono) simp_all
  with A1 A2 have sum: "\<bar>a * omf\<bar> + \<bar>b * fr\<bar> \<le> f32_max * (1 + 1 / 2 ^ 52)"
    by (simp add: algebra_simps)
  have T1: "\<bar>t1\<bar> \<le> \<bar>a * omf\<bar> + \<bar>a * omf\<bar> / 2 ^ 53 + 1"
    unfolding t1_def by (rule fl64_abs_le)
  have T2: "\<bar>t2\<bar> \<le> \<bar>b * fr\<bar> + \<bar>b * fr\<bar> / 2 ^ 53 + 1"
    unfolding t2_def by (rule fl64_abs_le)
  define B where "B = f32_max * (1 + 1 / 2 ^ 52)"
  define A where "A = \<bar>a * omf\<bar> + \<bar>b * fr\<bar>"
  have AB: "A \<le> B" using sum by (simp add: A_def B_def)
  then have "A / 2 ^ 53 \<le> B / 2 ^ 53" by (simp add: divide_right_mono)
  moreover from T1 T2 have "\<bar>t1 + t2\<bar> \<le> A + A / 2 ^ 53 + 2"
    unfolding A_def add_divide_distrib by linarith
  ultimately have T: "\<bar>t1 + t2\<bar> \<le> B + B / 2 ^ 53 + 2"
    using AB by linarith
  have Bnum: "B + B / 2 ^ 53 + 2 \<le> 2 ^ 129" by (simp add: B_def f32_max_def)
  with T have "\<bar>t1 + t2\<bar> \<le> 2 ^ 1023" by simp
  then have 5: "f64 (t1 + t2) = Some v" by (simp add: v_def f64_Some)
  have "\<bar>v\<bar> \<le> \<bar>t1 + t2\<bar> + \<bar>t1 + t2\<bar> / 2 ^ 53 + 1"
    unfolding v_def by (rule fl64_abs_le)
  moreover from T have "\<bar>t1 + t2\<bar> / 2 ^ 53 \<le> (B + B / 2 ^ 53 + 2) / 2 ^ 53"
    by (simp add: divide_right_mono)
  ultimately have "\<bar>v\<bar> \<le> (B + B / 2 ^ 53 + 2) + (B + B / 2 ^ 53 + 2) / 2 ^ 53 + 1"
    using T by linarith
  also have "\<dots> < (2 ^ 24 - 1 / 2) * 2 ^ 104" by (simp add: B_def f32_max_def)
  finally have 6: "f32 v = Some (fl32 v)" by (rule fl32_f32_max)
  from 1 2 3 4 5 6 show ?thesis
    unfolding fr_def omf_def t1_def t2_def v_def by blast
qed

section \<open>Properties of the resampler in the arithmetic of the source\<close>

text \<open>
  The rounded ratio and the rounded product, for an input of \<open>len\<close> samples and an exact
  ratio \<open>x\<close> whose product is at most \<open>2^50\<close>: both roundings are close to what they
  round.
\<close>

lemma rounded_product:
  assumes x: "0 < x" and len: "len < 2 ^ 53" and prod: "real len * x \<le> 2 ^ 50"
  shows "0 \<le> fl64 x"
    and "real len * fl64 x \<le> 2 ^ 50 + 1"
    and "\<bar>real len * fl64 x - real len * x\<bar> \<le> 3 / 16"
    and "0 \<le> fl64 (real len * fl64 x)"
    and "\<bar>fl64 (real len * fl64 x) - real len * fl64 x\<bar> \<le> 3 / 16"
proof -
  define r where "r = fl64 x"
  define L where "L = real len"
  define X where "X = L * r"
  have L: "0 \<le> L" "L \<le> 2 ^ 53" using len by (simp_all add: L_def)
  show r0: "0 \<le> fl64 x" using x by (simp add: fl64_nonneg)
  have "\<bar>r - x\<bar> \<le> \<bar>x\<bar> / 2 ^ 53 + 1 / 2 ^ 1075" unfolding r_def by (rule fl64_error)
  then have er: "\<bar>r - x\<bar> \<le> x / 2 ^ 53 + 1 / 2 ^ 1075" using x by simp
  have "\<bar>X - L * x\<bar> = L * \<bar>r - x\<bar>"
    using L(1) by (simp add: X_def abs_mult right_diff_distrib [symmetric])
  also have "\<dots> \<le> L * (x / 2 ^ 53 + 1 / 2 ^ 1075)" using er L(1) by (rule mult_left_mono)
  also have "\<dots> = (L * x) / 2 ^ 53 + L / 2 ^ 1075" by (simp add: algebra_simps)
  also have "\<dots> \<le> 2 ^ 50 / 2 ^ 53 + 2 ^ 53 / 2 ^ 1075"
    using prod L(2) by (intro add_mono divide_right_mono) (simp_all add: L_def)
  also have "\<dots> \<le> 3 / 16" by simp
  finally show eX: "\<bar>real len * fl64 x - real len * x\<bar> \<le> 3 / 16"
    by (simp add: X_def L_def r_def)
  with prod show X50: "real len * fl64 x \<le> 2 ^ 50 + 1" by linarith
  have X0: "0 \<le> real len * fl64 x" using r0 by simp
  then show "0 \<le> fl64 (real len * fl64 x)" by (rule fl64_nonneg)
  have "\<bar>fl64 (real len * fl64 x) - real len * fl64 x\<bar> \<le>
          \<bar>real len * fl64 x\<bar> / 2 ^ 53 + 1 / 2 ^ 1075"
    by (rule fl64_error)
  also have "\<dots> \<le> (2 ^ 50 + 1) / 2 ^ 53 + 1 / 2 ^ 1075"
    using X0 X50 by (intro add_mono divide_right_mono) simp_all
  also have "\<dots> \<le> 3 / 16" by simp
  finally show "\<bar>fl64 (real len * fl64 x) - real len * fl64 x\<bar> \<le> 3 / 16" .
qed

text \<open>
  The length the source computes is within one of the rounding of the exact product.
\<close>

lemma length_within_one:
  assumes "0 < x" and "len < 2 ^ 53" and "real len * x \<le> 2 ^ 50"
  shows "\<bar>js_round (fl64 (real len * fl64 x)) - round (real len * x)\<bar> \<le> 1"
proof -
  define P where "P = fl64 (real len * fl64 x)"
  define E where "E = real len * x"
  from rounded_product(3,5) [OF assms]
  have "\<bar>real len * fl64 x - E\<bar> \<le> 3 / 16" "\<bar>P - real len * fl64 x\<bar> \<le> 3 / 16"
    by (simp_all add: P_def E_def)
  then have "\<bar>P - E\<bar> \<le> 3 / 8" by linarith
  then have "\<lfloor>P + 1 / 2\<rfloor> \<le> \<lfloor>E + 1 / 2\<rfloor> + 1" "\<lfloor>E + 1 / 2\<rfloor> \<le> \<lfloor>P + 1 / 2\<rfloor> + 1"
    by linarith+
  then show ?thesis by (simp add: js_round_def round_def P_def E_def)
qed

text \<open>
  Every source position that the loop computes is inside the input: the rounded position
  is not negative and is below the length.
\<close>

lemma source_index_ieee:
  assumes x: "0 < x" and len: "len < 2 ^ 53" and prod: "real len * x \<le> 2 ^ 50"
    and i: "i < nat (js_round (fl64 (real len * fl64 x)))"
  shows "0 < fl64 x"
    and "0 \<le> fl64 (real i / fl64 x)"
    and "fl64 (real i / fl64 x) < real len"
proof -
  define r where "r = fl64 x"
  define X where "X = real len * r"
  define P where "P = fl64 X"
  define Y where "Y = real i / r"
  define s where "s = fl64 Y"
  note rp = rounded_product [OF x len prod]
  have "int i + 1 \<le> js_round P" using i by (simp add: P_def X_def r_def)
  then have "real_of_int (int i + 1) \<le> real_of_int \<lfloor>P + 1 / 2\<rfloor>"
    by (simp only: js_round_def of_int_le_iff)
  then have iP: "real i + 1 \<le> P + 1 / 2" by linarith
  have P0: "0 < P" using iP by simp
  have "X \<noteq> 0"
  proof
    assume "X = 0"
    then have "P = 0" by (simp add: P_def)
    with P0 show False by simp
  qed
  then have "r \<noteq> 0" by (auto simp add: X_def)
  with rp(1) show r: "0 < fl64 x" by (simp add: r_def)
  then have r': "0 < r" by (simp add: r_def)
  have len1: "1 \<le> real len" using \<open>X \<noteq> 0\<close> by (cases len) (simp_all add: X_def)
  have Y0: "0 \<le> Y" using r' by (simp add: Y_def)
  then show "0 \<le> fl64 (real i / fl64 x)" by (simp add: Y_def r_def fl64_nonneg)
  have Yr: "Y * r = real i" using r' by (simp add: Y_def)
  have "1 * r \<le> real len * r" using len1 r' by (intro mult_right_mono) simp_all
  then have rX: "r \<le> X" by (simp add: X_def)
  have X50: "X \<le> 2 ^ 50 + 1" using rp(2) by (simp add: X_def r_def)
  have eP: "\<bar>P - X\<bar> \<le> 3 / 16" using rp(5) by (simp add: P_def X_def r_def)
  have i_le: "real i \<le> X - 5 / 16" using iP eP by linarith
  then have "real i \<le> 2 ^ 50 + 1" using X50 by linarith
  then have "real i / 2 ^ 53 \<le> (2 ^ 50 + 1) / 2 ^ 53" by (rule divide_right_mono) simp
  also have "\<dots> \<le> 3 / 16" by simp
  finally have iu: "real i / 2 ^ 53 \<le> 3 / 16" .
  have "r \<le> 2 ^ 50 + 1" using rX X50 by linarith
  then have "r / 2 ^ 1075 \<le> (2 ^ 50 + 1) / 2 ^ 1075" by (rule divide_right_mono) simp
  also have "\<dots> \<le> 1 / 16" by simp
  finally have ru: "r / 2 ^ 1075 \<le> 1 / 16" .
  from i_le iu ru have key: "real i + real i / 2 ^ 53 + r / 2 ^ 1075 < X" by linarith
  have "(Y + Y / 2 ^ 53 + 1 / 2 ^ 1075) * r = real i + real i / 2 ^ 53 + r / 2 ^ 1075"
    using Yr by (simp add: algebra_simps add_divide_distrib)
  with key have "(Y + Y / 2 ^ 53 + 1 / 2 ^ 1075) * r < real len * r" by (simp add: X_def)
  then have bound: "Y + Y / 2 ^ 53 + 1 / 2 ^ 1075 < real len"
    using r' by (simp only: mult_less_cancel_right_pos)
  have "\<bar>s - Y\<bar> \<le> \<bar>Y\<bar> / 2 ^ 53 + 1 / 2 ^ 1075" unfolding s_def by (rule fl64_error)
  with Y0 have "s \<le> Y + Y / 2 ^ 53 + 1 / 2 ^ 1075" by simp
  with bound show "fl64 (real i / fl64 x) < real len" by (simp add: s_def Y_def r_def)
qed

lemma resample_sample_ieee_lerp:
  assumes ratio: "ratio \<noteq> 0"
    and pos: "0 \<le> fl64 (real i / ratio)" "fl64 (real i / ratio) < real (length raw)"
    and len: "length raw < 2 ^ 53"
    and bound: "\<forall>x \<in> set raw. \<bar>x\<bar> \<le> f32_max"
  shows "resample_sample_ieee raw ratio i = Some (lerp_ieee raw ratio i)"
proof -
  define s where "s = fl64 (real i / ratio)"
  define lo where "lo = \<lfloor>s\<rfloor>"
  define hi where "hi = min (lo + 1) (int (length raw) - 1)"
  have s: "0 \<le> s" "s < real (length raw)" using pos by (simp_all add: s_def)
  have "real (length raw) < 2 ^ 53" using len by (simp add: of_nat_less_numeral_power_cancel_iff)
  with s have "\<bar>s\<bar> < 2 ^ 1024" by simp
  then have 0: "f64 (real i / ratio) = Some s" by (simp add: f64_def s_def)
  have lo: "0 \<le> lo" "lo < int (length raw)" using s unfolding lo_def by linarith+
  then have hi: "0 \<le> hi" "hi < int (length raw)" unfolding hi_def by linarith+
  from lo have rlo: "read_elem raw lo = Some (raw ! nat lo)" by (simp add: read_elem_def)
  from hi have rhi: "read_elem raw hi = Some (raw ! nat hi)" by (simp add: read_elem_def)
  have "raw ! nat lo \<in> set raw" "raw ! nat hi \<in> set raw" using lo hi by simp_all
  with bound have ab: "\<bar>raw ! nat lo\<bar> \<le> f32_max" "\<bar>raw ! nat hi\<bar> \<le> f32_max" by blast+
  have d: "0 \<le> s - of_int lo" "s - of_int lo < 1" unfolding lo_def by linarith+
  from interpolation_finite [OF ab d] obtain fr omf t1 t2 v where
    "f64 (s - of_int lo) = Some fr" "fr = fl64 (s - of_int lo)"
    "f64 (1 - fr) = Some omf" "omf = fl64 (1 - fr)"
    "f64 (raw ! nat lo * omf) = Some t1" "t1 = fl64 (raw ! nat lo * omf)"
    "f64 (raw ! nat hi * fr) = Some t2" "t2 = fl64 (raw ! nat hi * fr)"
    "f64 (t1 + t2) = Some v" "v = fl64 (t1 + t2)"
    "f32 v = Some (fl32 v)"
    by blast
  then show ?thesis
    using ratio 0 rlo rhi
    by (simp add: resample_sample_ieee_def lerp_ieee_def Let_def
        s_def [symmetric] lo_def [symmetric] hi_def [symmetric])
qed

lemma resample_loop_ieee_fills:
  assumes "out < length h" and "raw < length h" and "raw \<noteq> out"
    and "length (h ! out) = n" and "i \<le> n"
    and "\<forall>k < n. resample_sample_ieee (h ! raw) ratio k = Some (f k)"
  shows "resample_loop_ieee h out raw ratio n i =
           Inr (h[out := take i (h ! out) @ map f [i..<n]])"
  using assms
proof (induction h out raw ratio n i rule: resample_loop_ieee.induct)
  case (1 h out raw ratio n i)
  show ?case
  proof (cases "i < n")
    case True
    let ?h' = "write_elem h out i (f i)"
    have s: "resample_sample_ieee (h ! raw) ratio i = Some (f i)" using True "1.prems" by simp
    have raw': "?h' ! raw = h ! raw" using "1.prems" by (simp add: write_elem_def)
    have "resample_loop_ieee ?h' out raw ratio n (Suc i) =
            Inr (?h'[out := take (Suc i) (?h' ! out) @ map f [Suc i..<n]])"
      using True s "1.prems" raw' by (intro "1.IH") (simp_all add: write_elem_def)
    moreover have "take (Suc i) (?h' ! out) = take i (h ! out) @ [f i]"
      using True "1.prems" by (simp add: write_elem_def take_Suc_conv_app_nth)
    moreover have "[i..<n] = i # [Suc i..<n]"
      using True by (simp add: upt_conv_Cons)
    ultimately show ?thesis
      using True s by (subst resample_loop_ieee.simps) (simp add: write_elem_def)
  next
    case False
    with "1.prems" have "i = n" by simp
    then show ?thesis using "1.prems" by (subst resample_loop_ieee.simps) simp
  qed
qed

lemma resample_ieee_result:
  assumes native: "0 < native" "native \<noteq> 16000" and raw: "valid h raw"
    and len: "length (h ! raw) < 2 ^ 53"
    and prod: "real (length (h ! raw)) * (16000 / native) \<le> 2 ^ 50"
    and bound: "\<forall>x \<in> set (h ! raw). \<bar>x\<bar> \<le> f32_max"
  shows "resample_ieee native h raw =
           Inr (length h, h @ [map (lerp_ieee (h ! raw) (fl64 (16000 / native)))
                  [0..<nat (js_round (fl64 (real (length (h ! raw)) * fl64 (16000 / native))))]])"
proof (cases "h ! raw = []")
  case True
  have zero: "f64 0 = Some 0" by (simp add: f64_def)
  have "js_round 0 = 0" by (simp add: js_round_def)
  moreover have "resample_loop_ieee (h @ [[]]) (length h) raw r 0 0 = Inr (h @ [[]])" for r
    by (subst resample_loop_ieee.simps) simp
  ultimately show ?thesis
    using True native(2) zero
    by (simp add: resample_ieee_def new_Float32Array_def Let_def split: option.splits)
next
  case False
  define x where "x = 16000 / native"
  define r where "r = fl64 x"
  define L where "L = length (h ! raw)"
  define P where "P = fl64 (real L * r)"
  define n where "n = nat (js_round P)"
  let ?h1 = "h @ [replicate n 0]"
  have x: "0 < x" using native(1) by (simp add: x_def)
  have L1: "1 \<le> real L" using False by (cases "h ! raw") (simp_all add: L_def)
  have prod': "real L * x \<le> 2 ^ 50" using prod by (simp add: L_def x_def)
  have len': "L < 2 ^ 53" using len by (simp add: L_def)
  note rp = rounded_product [OF x len' prod']
  have "1 * x \<le> real L * x" using L1 x by (intro mult_right_mono) simp_all
  with prod' have "x \<le> 2 ^ 50" by simp
  moreover have "(2::real) ^ 50 \<le> 2 ^ 1023" by simp
  ultimately have "\<bar>x\<bar> \<le> 2 ^ 1023" using x by linarith
  then have ratio: "f64 x = Some r" by (simp add: r_def f64_Some)
  have X: "0 \<le> real L * r" "real L * r \<le> 2 ^ 50 + 1" using rp(1,2) by (simp_all add: r_def)
  moreover have "(2::real) ^ 50 + 1 \<le> 2 ^ 1023" by simp
  ultimately have "\<bar>real L * r\<bar> \<le> 2 ^ 1023" by linarith
  then have product: "f64 (real L * r) = Some P" by (simp add: P_def f64_Some)
  have P0: "0 \<le> P" using rp(4) by (simp add: P_def r_def)
  have "\<bar>P - real L * r\<bar> \<le> 3 / 16" using rp(5) by (simp add: P_def r_def)
  with X(2) have P50: "P \<le> 2 ^ 50 + 2" by linarith
  have n0: "\<not> js_round P < 0" using P0 unfolding js_round_def by linarith
  have "P + 1 / 2 < 2 ^ 53" using P50 by simp
  then have "\<lfloor>P + 1 / 2\<rfloor> < 2 ^ 53" by (simp add: floor_less_iff)
  then have n53: "\<not> 2 ^ 53 \<le> js_round P" by (simp add: js_round_def)
  have rawv: "raw < length h" using raw by (simp add: valid_def)
  have samples: "\<forall>k < n. resample_sample_ieee (?h1 ! raw) r k = Some (lerp_ieee (h ! raw) r k)"
  proof (intro allI impI)
    fix k
    assume "k < n"
    then have k: "k < nat (js_round (fl64 (real L * fl64 x)))" by (simp add: n_def P_def r_def)
    from source_index_ieee [OF x len' prod' k]
    have "r \<noteq> 0" "0 \<le> fl64 (real k / r)" "fl64 (real k / r) < real (length (h ! raw))"
      by (simp_all add: r_def L_def)
    then have "resample_sample_ieee (h ! raw) r k = Some (lerp_ieee (h ! raw) r k)"
      using len bound by (rule resample_sample_ieee_lerp)
    then show "resample_sample_ieee (?h1 ! raw) r k = Some (lerp_ieee (h ! raw) r k)"
      using rawv by (simp add: nth_append)
  qed
  have "resample_loop_ieee ?h1 (length h) raw r n 0 =
          Inr (?h1[length h := take 0 (?h1 ! length h) @ map (lerp_ieee (h ! raw) r) [0..<n]])"
    using rawv samples by (intro resample_loop_ieee_fills) simp_all
  then have loop: "resample_loop_ieee ?h1 (length h) raw r n 0 =
          Inr (h @ [map (lerp_ieee (h ! raw) r) [0..<n]])"
    by simp
  have "native \<noteq> 0" using native(1) by simp
  then show ?thesis
    using native(2) ratio product n0 n53 loop
    by (simp add: resample_ieee_def new_Float32Array_def Let_def x_def [symmetric]
        L_def [symmetric] r_def [symmetric] P_def [symmetric] n_def [symmetric])
qed

lemmas rnd_eval =
  fl64_def fl32_def f64_def f32_def rnd_def binade_def rne_def Let_def compute_bitlen

text \<open>
  Two inputs on which the length is not the rounding of the exact product: 19 samples at
  4864 Hz, where the exact product is 62.5 and the product of the source is just below
  it, and one sample at the binary64 rate next to 32000/7 Hz, where the exact product is
  just below 3.5 and the product of the source is 3.5. A sample on which the stored value
  is not the exact interpolation: 39/160 is no binary32 number.
\<close>

lemma product_4864:
  "nat (js_round (fl64 (real (length (replicate 19 (0::real))) * fl64 (16000 / 4864)))) = 62"
proof -
  have r: "fl64 (16000 / 4864) = 7407236229227789 / 2251799813685248"
    by (simp add: rnd_eval)
  have l: "real (length (replicate 19 (0::real))) = 19" by simp
  have p: "fl64 (19 * (7407236229227789 / 2251799813685248)) =
             8796093022207999 / 140737488355328"
    by (simp add: rnd_eval)
  have n: "nat (js_round (8796093022207999 / 140737488355328)) = 62"
    by (simp add: js_round_def)
  show ?thesis unfolding r l p by (rule n)
qed

lemma resample_ieee_4864:
  "resample_ieee 4864 [replicate 19 0] 0 = Inr (1, [replicate 19 0, replicate 62 0])"
proof -
  let ?raw = "replicate 19 (0::real)"
  let ?r = "fl64 (16000 / 4864)"
  have x: "(0::real) < 16000 / 4864" by simp
  have len: "(19::nat) < 2 ^ 53" by simp
  have prod: "real 19 * (16000 / 4864) \<le> 2 ^ 50" by simp
  have l: "[?raw] ! 0 = ?raw" by simp
  have "lerp_ieee ?raw ?r k = 0" if "k < 62" for k
  proof -
    from that have "k < nat (js_round (fl64 (real (length ?raw) * fl64 (16000 / 4864))))"
      unfolding product_4864 .
    then have k: "k < nat (js_round (fl64 (real 19 * fl64 (16000 / 4864))))"
      by (simp only: length_replicate)
    from source_index_ieee(2,3) [OF x len prod k]
    have "0 \<le> \<lfloor>fl64 (real k / ?r)\<rfloor>" "\<lfloor>fl64 (real k / ?r)\<rfloor> < 19" by linarith+
    moreover have "int (length ?raw) - 1 = 18" by simp
    ultimately have "nat \<lfloor>fl64 (real k / ?r)\<rfloor> < 19"
      "nat (min (\<lfloor>fl64 (real k / ?r)\<rfloor> + 1) (int (length ?raw) - 1)) < 19"
      by linarith+
    then show ?thesis
      unfolding lerp_ieee_def Let_def by (simp only: nth_replicate) (simp add: fl64_def fl32_def)
  qed
  then have m: "map (lerp_ieee ?raw ?r) [0..<62] = replicate 62 0"
    by (intro nth_equalityI) simp_all
  have res: "resample_ieee 4864 [?raw] 0 =
      Inr (length [?raw], [?raw] @ [map (lerp_ieee ([?raw] ! 0) ?r)
        [0..<nat (js_round (fl64 (real (length ([?raw] ! 0)) * ?r)))]])"
    by (rule resample_ieee_result) (simp_all add: valid_def f32_max_def)
  show ?thesis unfolding res l product_4864 m by simp
qed

lemma resample_ieee_32000_7:
  "resample_ieee (5026338869833143 / 1099511627776) [[1]] 0 = Inr (1, [[1], [1, 1, 1, 1]])"
proof -
  let ?native = "5026338869833143 / 1099511627776 :: real"
  have l: "[[1::real]] ! 0 = [1]" by simp
  have r: "fl64 (16000 / ?native) = 7 / 2" by (simp add: rnd_eval)
  have p: "fl64 (real (length [1::real]) * (7 / 2)) = 7 / 2" by (simp add: rnd_eval)
  have n: "nat (js_round (7 / 2)) = 4" by (simp add: js_round_def)
  have upt: "[0..<4] = [0, 1, 2, 3]" by (simp add: upt_rec)
  have 0: "lerp_ieee [1] (7 / 2) 0 = 1" by (simp add: lerp_ieee_def rnd_eval)
  have 1: "lerp_ieee [1] (7 / 2) 1 = 1" by (simp add: lerp_ieee_def rnd_eval)
  have 2: "lerp_ieee [1] (7 / 2) 2 = 1" by (simp add: lerp_ieee_def rnd_eval)
  have 3: "lerp_ieee [1] (7 / 2) 3 = 1" by (simp add: lerp_ieee_def rnd_eval)
  have m: "map (lerp_ieee [1] (7 / 2)) [0, 1, 2, 3] = [1, 1, 1, 1]"
    by (simp only: list.map 0 1 2 3)
  have res: "resample_ieee ?native [[1]] 0 =
      Inr (length [[1::real]], [[1]] @ [map (lerp_ieee ([[1]] ! 0) (fl64 (16000 / ?native)))
        [0..<nat (js_round (fl64 (real (length ([[1::real]] ! 0)) * fl64 (16000 / ?native))))]])"
    by (rule resample_ieee_result) (simp_all add: valid_def f32_max_def)
  show ?thesis unfolding res l r p n upt m by simp
qed

lemma resample_ieee_44100:
  "resample_ieee 44100 [[0, 0, 1, 0, 0, 0]] 0 =
     Inr (1, [[0, 0, 1, 0, 0, 0], [0, 8178893 / 33554432]])"
  and "lerp_at [0, 0, 1, 0, 0, 0] (real 1 * 44100 / 16000) = 39 / 160"
proof -
  let ?raw = "[0, 0, 1, 0, 0, 0 :: real]"
  let ?r = "3267918096958183 / 9007199254740992 :: real"
  have l: "[?raw] ! 0 = ?raw" by simp
  have r: "fl64 (16000 / 44100) = ?r" by (simp add: rnd_eval)
  have p: "nat (js_round (fl64 (real (length ?raw) * ?r))) = 2"
    by (simp add: rnd_eval js_round_def)
  have upt: "[0..<2] = [0, 1]" by (simp add: upt_rec)
  have 0: "lerp_ieee ?raw ?r 0 = 0" by (simp add: lerp_ieee_def rnd_eval)
  have 1: "lerp_ieee ?raw ?r 1 = 8178893 / 33554432" by (simp add: lerp_ieee_def rnd_eval)
  have m: "map (lerp_ieee ?raw ?r) [0, 1] = [0, 8178893 / 33554432]"
    by (simp only: list.map 0 1)
  have res: "resample_ieee 44100 [?raw] 0 =
      Inr (length [?raw], [?raw] @ [map (lerp_ieee ([?raw] ! 0) (fl64 (16000 / 44100)))
        [0..<nat (js_round (fl64 (real (length ([?raw] ! 0)) * fl64 (16000 / 44100))))]])"
    by (rule resample_ieee_result) (simp_all add: valid_def f32_max_def)
  show "resample_ieee 44100 [[0, 0, 1, 0, 0, 0]] 0 =
     Inr (1, [[0, 0, 1, 0, 0, 0], [0, 8178893 / 33554432]])"
    unfolding res l r p upt m by simp
  show "lerp_at [0, 0, 1, 0, 0, 0] (real 1 * 44100 / 16000) = 39 / 160"
    by (simp add: lerp_at_def)
qed

lemma resample_ieee_8000:
  "resample_ieee 8000 [[1, 0]] 0 = Inr (1, [[1, 0], [1, 1 / 2, 0, 0]])"
proof -
  let ?raw = "[1, 0 :: real]"
  have l: "[?raw] ! 0 = ?raw" by simp
  have r: "fl64 (16000 / 8000) = 2" by (simp add: rnd_eval)
  have p: "nat (js_round (fl64 (real (length ?raw) * 2))) = 4"
    by (simp add: rnd_eval js_round_def)
  have upt: "[0..<4] = [0, 1, 2, 3]" by (simp add: upt_rec)
  have 0: "lerp_ieee ?raw 2 0 = 1" by (simp add: lerp_ieee_def rnd_eval)
  have 1: "lerp_ieee ?raw 2 1 = 1 / 2" by (simp add: lerp_ieee_def rnd_eval)
  have 2: "lerp_ieee ?raw 2 2 = 0" by (simp add: lerp_ieee_def rnd_eval)
  have 3: "lerp_ieee ?raw 2 3 = 0" by (simp add: lerp_ieee_def rnd_eval)
  have m: "map (lerp_ieee ?raw 2) [0, 1, 2, 3] = [1, 1 / 2, 0, 0]"
    by (simp only: list.map 0 1 2 3)
  have res: "resample_ieee 8000 [?raw] 0 =
      Inr (length [?raw], [?raw] @ [map (lerp_ieee ([?raw] ! 0) (fl64 (16000 / 8000)))
        [0..<nat (js_round (fl64 (real (length ([?raw] ! 0)) * fl64 (16000 / 8000))))]])"
    by (rule resample_ieee_result) (simp_all add: valid_def f32_max_def)
  show ?thesis unfolding res l r p upt m by simp
qed

text \<open>
  Claim C1, as the code has it. For every input of fewer than \<open>2^53\<close> samples of
  magnitude at most the largest finite binary32 number, and every positive native rate for
  which the exact product \<open>len * 16000 / native\<close> is at most \<open>2^50\<close>, the resampler
  succeeds with a fresh buffer. Its length is within one of the rounding of the exact
  product, and an empty input gives an empty output. At a rate of 16000 the output is the
  input. At any other rate the length is \<^verbatim>\<open>Math.round\<close> of the product as the source
  computes it (the ratio rounded to binary64, then the product rounded to binary64), and
  sample \<open>i\<close> is the linear interpolation at the source position \<open>i / ratio\<close> with
  every operation rounded to binary64 and the result rounded to binary32, the lower index
  inside the input and the upper index clamped to the last one.
\<close>

theorem resample_ieee_interpolates:
  assumes "0 < native" and "valid h raw"
    and "length (h ! raw) < 2 ^ 53"
    and "real (length (h ! raw)) * (16000 / native) \<le> 2 ^ 50"
    and "\<forall>x \<in> set (h ! raw). \<bar>x\<bar> \<le> f32_max"
  shows "\<exists>out h'. resample_ieee native h raw = Inr (out, h') \<and>
           \<bar>int (length (h' ! out)) - round (real (length (h ! raw)) * 16000 / native)\<bar> \<le> 1 \<and>
           (h ! raw = [] \<longrightarrow> h' ! out = []) \<and>
           (native = 16000 \<longrightarrow> h' ! out = h ! raw) \<and>
           (native \<noteq> 16000 \<longrightarrow>
              length (h' ! out) =
                nat (js_round (fl64 (real (length (h ! raw)) * fl64 (16000 / native)))) \<and>
              (\<forall>i < length (h' ! out).
                 0 \<le> \<lfloor>fl64 (real i / fl64 (16000 / native))\<rfloor> \<and>
                 \<lfloor>fl64 (real i / fl64 (16000 / native))\<rfloor> < int (length (h ! raw)) \<and>
                 h' ! out ! i = lerp_ieee (h ! raw) (fl64 (16000 / native)) i))"
proof (cases "native = 16000")
  case True
  have "resample_ieee native h raw = Inr (length h, h @ [h ! raw])"
    using True by (simp add: resample_ieee_def copy_Float32Array_def)
  moreover have "\<bar>int (length (h ! raw)) - round (real (length (h ! raw)) * 16000 / native)\<bar> \<le> 1"
    using True by simp
  ultimately show ?thesis using True by simp
next
  case False
  define x where "x = 16000 / native"
  define L where "L = length (h ! raw)"
  define n where "n = nat (js_round (fl64 (real L * fl64 x)))"
  let ?out = "map (lerp_ieee (h ! raw) (fl64 x)) [0..<n]"
  have x: "0 < x" using assms(1) by (simp add: x_def)
  have len: "L < 2 ^ 53" using assms(3) by (simp add: L_def)
  have prod: "real L * x \<le> 2 ^ 50" using assms(4) by (simp add: L_def x_def)
  have run: "resample_ieee native h raw = Inr (length h, h @ [?out])"
    using resample_ieee_result [OF assms(1) False assms(2-5)] by (simp add: x_def L_def n_def)
  have rp: "0 \<le> fl64 (real L * fl64 x)" by (rule rounded_product(4) [OF x len prod])
  then have "0 \<le> js_round (fl64 (real L * fl64 x))" unfolding js_round_def by linarith
  then have "int n = js_round (fl64 (real L * fl64 x))" by (simp add: n_def)
  with length_within_one [OF x len prod]
  have near: "\<bar>int n - round (real L * 16000 / native)\<bar> \<le> 1" by (simp add: x_def)
  have idx: "\<forall>i < n. 0 \<le> \<lfloor>fl64 (real i / fl64 x)\<rfloor> \<and> \<lfloor>fl64 (real i / fl64 x)\<rfloor> < int L"
  proof (intro allI impI)
    fix i
    assume "i < n"
    then have "i < nat (js_round (fl64 (real L * fl64 x)))" by (simp add: n_def)
    from source_index_ieee(2,3) [OF x len prod this]
    show "0 \<le> \<lfloor>fl64 (real i / fl64 x)\<rfloor> \<and> \<lfloor>fl64 (real i / fl64 x)\<rfloor> < int L"
      by linarith
  qed
  have empty: "h ! raw = [] \<longrightarrow> ?out = []"
    by (simp add: n_def L_def js_round_def)
  show ?thesis
    using run near idx empty False
    by (intro exI [of _ "length h"] exI [of _ "h @ [?out]"])
      (simp add: x_def [symmetric] L_def [symmetric] n_def [symmetric])
qed

theorem resample_ieee_interpolates_witness:
  "(0::real) < 8000 \<and> valid [[1, 0]] 0 \<and> length ([[1, 0 :: real]] ! 0) < 2 ^ 53 \<and>
   real (length ([[1, 0 :: real]] ! 0)) * (16000 / 8000) \<le> 2 ^ 50 \<and>
   \<bar>1 :: real\<bar> \<le> f32_max \<and> \<bar>0 :: real\<bar> \<le> f32_max \<and>
   resample_ieee 8000 [[1, 0]] 0 = Inr (1, [[1, 0], [1, 1 / 2, 0, 0]])"
proof -
  have 1: "(0::real) < 8000" by simp
  have 2: "valid [[1, 0]] 0" by (simp add: valid_def)
  have 3: "length ([[1, 0 :: real]] ! 0) < 2 ^ 53" by simp
  have 4: "real (length ([[1, 0 :: real]] ! 0)) * (16000 / 8000) \<le> 2 ^ 50" by simp
  have 5: "\<forall>x \<in> set ([[1, 0 :: real]] ! 0). \<bar>x\<bar> \<le> f32_max" by (simp add: f32_max_def)
  from resample_ieee_interpolates [OF 1 2 3 4 5] obtain out h' where
    "resample_ieee 8000 [[1, 0]] 0 = Inr (out, h')"
    by blast
  with resample_ieee_8000 1 2 3 4 5 show ?thesis by simp
qed

text \<open>
  The claim as the specification words it fails: the length is not always the rounding
  of \<open>len * 16000 / native\<close>. On 19 samples at 4864 Hz the source returns 62 samples,
  where the product is 62.5 and rounds to 63; on one sample at the binary64 rate next to
  32000/7 Hz it returns 4 samples, where the product is below 3.5 and rounds to 3.
\<close>

theorem resample_length_not_exact_rounding:
  "resample_ieee 4864 [replicate 19 0] 0 = Inr (1, [replicate 19 0, replicate 62 0]) \<and>
   nat (round (real 19 * 16000 / 4864)) = 63 \<and>
   resample_ieee (5026338869833143 / 1099511627776) [[1]] 0 = Inr (1, [[1], [1, 1, 1, 1]]) \<and>
   real 1 * 16000 / (5026338869833143 / 1099511627776) < 7 / 2 \<and>
   nat (round (real 1 * 16000 / (5026338869833143 / 1099511627776))) = 3"
proof -
  have "nat (round (real 19 * 16000 / 4864)) = 63" by (simp add: round_def)
  moreover have "real 1 * 16000 / (5026338869833143 / 1099511627776) < 7 / 2" by simp
  moreover have "nat (round (real 1 * 16000 / (5026338869833143 / 1099511627776))) = 3"
    by (simp add: round_def)
  ultimately show ?thesis using resample_ieee_4864 resample_ieee_32000_7 by blast
qed

text \<open>At a rate of 16000 the two definitions of the resampler are the same copy.\<close>

lemma resample_ieee_identity: "resample_ieee 16000 h raw = resample 16000 h raw"
  by (simp add: resample_ieee_def resample_def)

section \<open>Properties of the capture backends\<close>

lemma mergeChunks_empty: "mergeChunks h [] = Inr (length h, h @ [[]])"
  by (simp add: mergeChunks_def new_Float32Array_def totalLength_def)




lemma chunks_ok_push:
  "chunks_ok h chunks \<Longrightarrow> in_range xs \<Longrightarrow> chunks_ok (h @ [xs]) (chunks @ [length h])"
  by (auto simp add: chunks_ok_def list_all_iff valid_def nth_append)


subsection \<open>Event frames\<close>





lemma g_stop_chunks: "g_chunks (snd (snd (g_stop h s))) = g_chunks s"
  by (simp add: g_stop_def Let_def split: option.splits sum.splits prod.splits)

lemma g_getAudio_chunks: "g_chunks (snd (snd (g_getAudio h s))) = g_chunks s"
  by (simp add: g_getAudio_def split: sum.splits prod.splits)





subsection \<open>Live stream\<close>




lemma b_onaudioprocess_chunks_ok:
  "chunks_ok h (b_chunks s) \<Longrightarrow> in_range input \<Longrightarrow> b_onaudioprocess h s input = (h', s') \<Longrightarrow>
     chunks_ok h' (b_chunks s')"
  by (auto simp add: b_onaudioprocess_def from_samples_def chunks_ok_push)

lemma b_start_chunks_ok: "chunks_ok h (b_chunks (snd (b_start rate s)))"
  by (simp add: b_start_def Let_def chunks_ok_def)



text \<open>
  Claim C5, as the code has it. \<open>start\<close> resets the list of chunks of a capture session
  to the empty list, in both backends. \<open>stop\<close> and \<open>getAudio\<close> read the list and
  leave it as it is: after either returns, the session holds the chunks it held before,
  until the next \<open>start\<close>.
\<close>

theorem chunks_reset_on_start_only:
  "g_chunks (g_start s) = [] \<and>
   b_chunks (snd (b_start rate bs)) = [] \<and>
   g_chunks (snd (snd (g_stop h s))) = g_chunks s \<and>
   g_chunks (snd (snd (g_getAudio h s))) = g_chunks s \<and>
   b_chunks (snd (snd (b_stop h bs))) = b_chunks bs \<and>
   b_chunks (snd (snd (b_getAudio h bs))) = b_chunks bs"
proof -
  have "g_chunks (g_start s) = []" by (simp add: g_start_def split: prod.splits)
  moreover have "b_chunks (snd (b_start rate bs)) = []" by (simp add: b_start_def Let_def)
  moreover have "b_chunks (snd (snd (b_stop h bs))) = b_chunks bs"
    by (simp add: b_stop_def Let_def split: sum.splits prod.splits)
  moreover have "b_chunks (snd (snd (b_getAudio h bs))) = b_chunks bs"
    by (simp add: b_getAudio_def split: sum.splits prod.splits)
  ultimately show ?thesis by (simp add: g_stop_chunks g_getAudio_chunks)
qed

text \<open>
  The claim as the specification words it fails: after \<open>start\<close>, one audio frame and
  \<open>stop\<close> (or \<open>getAudio\<close>), the list of chunks still holds the frame.
\<close>

theorem chunks_not_cleared_by_stop:
  "g_chunks (snd (snd (g_stop
      (fst (g_run [] \<lparr>audio_on = False, listeners = [], next_listener = 0\<rparr>
              [GStart, GEvent (AudioEvent \<lparr>buffer = [255, 127], byteOffset = 0, u8_length = 2\<rparr>)]))
      (snd (g_run [] \<lparr>audio_on = False, listeners = [], next_listener = 0\<rparr>
              [GStart, GEvent (AudioEvent \<lparr>buffer = [255, 127], byteOffset = 0, u8_length = 2\<rparr>)]))))) \<noteq> [] \<and>
   g_chunks (snd (snd (g_getAudio
      (fst (g_run [] \<lparr>audio_on = False, listeners = [], next_listener = 0\<rparr>
              [GStart, GEvent (AudioEvent \<lparr>buffer = [255, 127], byteOffset = 0, u8_length = 2\<rparr>)]))
      (snd (g_run [] \<lparr>audio_on = False, listeners = [], next_listener = 0\<rparr>
              [GStart, GEvent (AudioEvent \<lparr>buffer = [255, 127], byteOffset = 0, u8_length = 2\<rparr>)]))))) \<noteq> []"
  by (simp add: g_stop_chunks g_getAudio_chunks g_run_def GlassesAudioCapture_def g_start_def
      onEvenHubEvent_def audioControl_def g_listener_def pcmS16LEtoFloat32_def
      new_Int16Array_def new_Float32Array_def)

text \<open>
  Claim C10. \<open>stop\<close> on a freshly constructed event-frame backend, before any
  \<open>start\<close>, does not throw and returns a new empty buffer: there is no listener to
  unsubscribe and no chunk to merge. The backend is as constructed, the bridge having
  been told to stop the audio.
\<close>

theorem stop_before_start:
  "g_stop h (GlassesAudioCapture b) =
     (Inr (length h), h @ [[]], (GlassesAudioCapture b)\<lparr>g_bridge := audioControl False b\<rparr>) \<and>
   (h @ [[]]) ! length h = []"
  by (simp add: g_stop_def GlassesAudioCapture_def mergeChunks_empty)

section \<open>Properties of the recognition worker\<close>

lemma transcribe_unloaded:
  "transcriber w = None \<Longrightarrow> transcribe w audio = ([Error ''Model not loaded''], None, w)"
  by (simp add: transcribe_def)

lemma onmessage_unloaded:
  "transcriber w = None \<Longrightarrow>
     onmessage w (Transcribe audio) env = ([Error ''Model not loaded''], w)"
  by (simp add: onmessage_def transcribe_unloaded)

lemma loadModel_failed:
  "isl (outcome env) \<Longrightarrow> snd (snd (loadModel w env)) = w"
  by (cases "outcome env") (simp_all add: loadModel_def Let_def)

lemma onmessage_load_failed:
  "isl (outcome env) \<Longrightarrow> snd (onmessage w Load env) = w"
  by (cases "outcome env") (simp_all add: onmessage_def loadModel_def Let_def)

text \<open>As long as no \<open>load\<close> has succeeded, the worker is in its initial state.\<close>

lemma worker_run_unloaded:
  "no_load_succeeded history \<Longrightarrow> transcriber w = None \<Longrightarrow> worker_run w history = w"
proof (induction history arbitrary: w rule: no_load_succeeded.induct)
  case 1
  then show ?case by simp
next
  case (2 env rest)
  then show ?case by (simp add: onmessage_load_failed)
next
  case (3 audio env rest)
  then show ?case by (simp add: onmessage_unloaded)
qed

text \<open>
  Claim C2. A \<open>transcribe\<close> request handled when no \<open>load\<close> has completed successfully
  (after any history of failed loads and earlier requests) is answered by exactly one
  \<open>error\<close> response, "Model not loaded", and no \<open>result\<close> response. The model is
  not invoked and the state of the worker does not change; the answer is the same
  whatever the audio of the request.
\<close>

theorem transcribe_before_load:
  assumes "no_load_succeeded history"
  shows "onmessage (worker_run worker_init history) (Transcribe audio) env =
           ([Error ''Model not loaded''], worker_init) \<and>
         length (filter is_error (fst (onmessage (worker_run worker_init history)
                   (Transcribe audio) env))) = 1 \<and>
         filter is_result (fst (onmessage (worker_run worker_init history)
                   (Transcribe audio) env)) = [] \<and>
         invocations (snd (onmessage (worker_run worker_init history)
                   (Transcribe audio) env)) = []"
proof -
  have none: "transcriber worker_init = None" by (simp add: worker_init_def)
  have "worker_run worker_init history = worker_init"
    using assms none by (rule worker_run_unloaded)
  then have "onmessage (worker_run worker_init history) (Transcribe audio) env =
               ([Error ''Model not loaded''], worker_init)"
    using none by (simp add: onmessage_unloaded)
  then show ?thesis by (simp add: is_error_def is_result_def worker_init_def)
qed

theorem transcribe_before_load_witness:
  "no_load_succeeded
     [(Transcribe [1/2], \<lparr>gpu = NoGpu, callbacks = [], outcome = Inl (Thrown ''offline'')\<rparr>),
      (Load, \<lparr>gpu = NoGpu, callbacks = [], outcome = Inl (Thrown ''offline'')\<rparr>)] \<and>
   onmessage
     (worker_run worker_init
        [(Transcribe [1/2], \<lparr>gpu = NoGpu, callbacks = [], outcome = Inl (Thrown ''offline'')\<rparr>),
         (Load, \<lparr>gpu = NoGpu, callbacks = [], outcome = Inl (Thrown ''offline'')\<rparr>)])
     (Transcribe [1/4, 0])
     \<lparr>gpu = NoGpu, callbacks = [], outcome = Inl (Thrown ''offline'')\<rparr> =
     ([Error ''Model not loaded''], worker_init)"
proof -
  have h: "no_load_succeeded
     [(Transcribe [1/2], \<lparr>gpu = NoGpu, callbacks = [], outcome = Inl (Thrown ''offline'')\<rparr>),
      (Load, \<lparr>gpu = NoGpu, callbacks = [], outcome = Inl (Thrown ''offline'')\<rparr>)]"
    by simp
  from transcribe_before_load [OF h] h show ?thesis by blast
qed

text \<open>
  Claim C8. When handling a \<open>transcribe\<close> request with a loaded model raises an
  exception (the model throws, or it returns no candidate), the worker posts exactly one
  response, an \<open>error\<close>, and keeps the model it had: the next \<open>transcribe\<close> request
  is not answered with "Model not loaded" but reaches the model.
\<close>

theorem transcribe_exception_keeps_model:
  assumes "transcriber w = Some m"
    and "transcribe w audio = (posted0, Some err, w1)"
  shows "fst (onmessage w (Transcribe audio) env) =
           [Error (''Transcription failed: '' @ render err)] \<and>
         transcriber (snd (onmessage w (Transcribe audio) env)) = Some m \<and>
         fst (onmessage (snd (onmessage w (Transcribe audio) env)) (Transcribe audio') env') \<noteq>
           [Error ''Model not loaded''] \<and>
         invocations (snd (onmessage (snd (onmessage w (Transcribe audio) env))
                             (Transcribe audio') env')) =
           invocations w @ [audio, audio']"
proof -
  from assms have p0: "posted0 = []" and w1: "w1 = w\<lparr>invocations := invocations w @ [audio]\<rparr>"
    by (auto simp add: transcribe_def Let_def split: sum.splits)
  with assms(2) have first: "onmessage w (Transcribe audio) env =
      ([Error (''Transcription failed: '' @ render err)], w1)"
    by (simp add: onmessage_def)
  have m: "transcriber w1 = Some m" using w1 assms(1) by simp
  have second: "fst (onmessage w1 (Transcribe audio') env') \<noteq> [Error ''Model not loaded'']"
    using m
    by (auto simp add: onmessage_def transcribe_def Let_def split: sum.splits)
  have calls: "invocations (snd (onmessage w1 (Transcribe audio') env')) =
                 invocations w @ [audio, audio']"
    using m w1
    by (auto simp add: onmessage_def transcribe_def Let_def split: sum.splits)
  from first m second calls show ?thesis by simp
qed

theorem transcribe_exception_keeps_model_witness:
  "transcriber \<lparr>transcriber = Some (\<lambda>a. if a = [] then Inl (Thrown ''empty audio'') else Inr (Single '' hi '')),
      invocations = []\<rparr> =
     Some (\<lambda>a. if a = [] then Inl (Thrown ''empty audio'') else Inr (Single '' hi '')) \<and>
   transcribe \<lparr>transcriber = Some (\<lambda>a. if a = [] then Inl (Thrown ''empty audio'') else Inr (Single '' hi '')),
      invocations = []\<rparr> [] =
     ([], Some (Thrown ''empty audio''),
      \<lparr>transcriber = Some (\<lambda>a. if a = [] then Inl (Thrown ''empty audio'') else Inr (Single '' hi '')),
       invocations = [[]]\<rparr>) \<and>
   fst (onmessage \<lparr>transcriber = Some (\<lambda>a. if a = [] then Inl (Thrown ''empty audio'') else Inr (Single '' hi '')),
      invocations = []\<rparr> (Transcribe [])
      \<lparr>gpu = NoGpu, callbacks = [], outcome = Inl (Thrown ''offline'')\<rparr>) =
     [Error ''Transcription failed: empty audio'']"
proof -
  let ?m = "\<lambda>a :: real list. if a = [] then Inl (Thrown ''empty audio'') else Inr (Single '' hi '')"
  let ?w = "\<lparr>transcriber = Some ?m, invocations = []\<rparr>"
  have a: "transcriber ?w = Some ?m" by simp
  have b: "transcribe ?w [] = ([], Some (Thrown ''empty audio''), ?w\<lparr>invocations := [[]]\<rparr>)"
    by (simp add: transcribe_def)
  from transcribe_exception_keeps_model [OF a b] a b show ?thesis by simp
qed

section \<open>Properties of the recording session\<close>

text \<open>
  Claim C3. When \<open>stopRecording\<close> runs in the Recording state and the backend's
  \<open>stop\<close> succeeds with fewer than 1600 samples, the utterance is rejected: "too
  short" is logged and shown, the session is idle again with the record button enabled,
  and nothing is posted to the worker. With 1600 samples or more, one \<open>transcribe\<close>
  request carrying the audio is posted.
\<close>

theorem stopRecording_min_length:
  assumes "audioCapture s" and "recording s"
  shows "(length audio < 1600 \<longrightarrow>
            idle (stopRecording s (Inr audio)) \<and>
            status_text (stopRecording s (Inr audio)) = ''Too short - try again'' \<and>
            hd (log_entries (stopRecording s (Inr audio))) = (TooShort, error) \<and>
            posted (stopRecording s (Inr audio)) = posted s) \<and>
         (1600 \<le> length audio \<longrightarrow>
            posted (stopRecording s (Inr audio)) = posted s @ [Transcribe audio] \<and>
            status_text (stopRecording s (Inr audio)) = ''Transcribing...'' \<and>
            \<not> recording (stopRecording s (Inr audio)))"
  using assms
  by (simp add: stopRecording_def Let_def log'_def updateDisplay_def idle_def)

theorem stopRecording_min_length_witness:
  "audioCapture (startRecording
      \<lparr>audioCapture = True, recording = False, has_bridge = False, display = [],
       status_text = [], btn_text = ''Record'', btn_disabled = False, btn_recording = False,
       log_entries = [], posted = []\<rparr>) \<and>
   recording (startRecording
      \<lparr>audioCapture = True, recording = False, has_bridge = False, display = [],
       status_text = [], btn_text = ''Record'', btn_disabled = False, btn_recording = False,
       log_entries = [], posted = []\<rparr>) \<and>
   length (replicate 1599 (0::real)) < 1600 \<and>
   posted (stopRecording (startRecording
      \<lparr>audioCapture = True, recording = False, has_bridge = False, display = [],
       status_text = [], btn_text = ''Record'', btn_disabled = False, btn_recording = False,
       log_entries = [], posted = []\<rparr>) (Inr (replicate 1599 0))) = [] \<and>
   1600 \<le> length (replicate 1600 (0::real)) \<and>
   posted (stopRecording (startRecording
      \<lparr>audioCapture = True, recording = False, has_bridge = False, display = [],
       status_text = [], btn_text = ''Record'', btn_disabled = False, btn_recording = False,
       log_entries = [], posted = []\<rparr>) (Inr (replicate 1600 0))) =
     [Transcribe (replicate 1600 0)]"
proof -
  let ?s = "startRecording
      \<lparr>audioCapture = True, recording = False, has_bridge = False, display = [],
       status_text = [], btn_text = ''Record'', btn_disabled = False, btn_recording = False,
       log_entries = [], posted = []\<rparr>"
  have a: "audioCapture ?s" and r: "recording ?s" and p: "posted ?s = []"
    by (simp_all add: startRecording_def log'_def updateDisplay_def)
  have short: "length (replicate 1599 (0::real)) < 1600" by simp
  have long: "1600 \<le> length (replicate 1600 (0::real))" by simp
  from stopRecording_min_length [OF a r, of "replicate 1599 0"] short p
  have 1: "posted (stopRecording ?s (Inr (replicate 1599 0))) = []" by simp
  from stopRecording_min_length [OF a r, of "replicate 1600 0"] long p
  have 2: "posted (stopRecording ?s (Inr (replicate 1600 0))) = [Transcribe (replicate 1600 0)]"
    by simp
  from a r short long 1 2 show ?thesis by blast
qed

end
